theory Spec2Isabelle
  imports Main
begin

section \<open>Go strings and the library functions the parser calls\<close>

text \<open>
  A Go string is a sequence of bytes; \<open>string\<close> (a list of 8-bit characters) models it,
  \<open>length\<close> is \<open>len\<close>, and an index is a byte index.  A function that returns
  \<open>(value, err)\<close> becomes a function into \<open>fault + value\<close>; a run-time panic (an index
  or slice bound out of range) is the fault \<open>Panic\<close>, which no caller can test for.
\<close>

datatype error =
    NumSyntax | NumRange
  | ExpectedStart | SingletonParam | QuoteInKey | QuoteMidValue | CharAfterQuote
  | EmptyKey | EqualsInValue | UnclosedQuotes
  | NoColonInUri | UnsupportedScheme | InvalidProtocolName | NoColonAfterProtocol
  | UriEndedEarly
  | AddressEmpty | UnclosedDisplayQuote | NoAngleAfterDisplayName | AngleWithoutClose
  | FieldNameNoValue
  | ParamMismatch | MultipleTo | WildcardInTo | MultipleFrom | WildcardInFrom
  | WildcardContactParams | WildcardContactDisplayName | ContactUriInvalid
  | CSeqParts | CSeqTooBig | CSeqSemicolon
  | CallIdWhitespace | CallIdSemicolon | CallIdEmpty
  | ViaProtocolParts | ViaNoWhitespace | ViaEmptyTransport | ViaNoName | ViaNoVersion
  | ViaNoTransport
  | RequestLineSpaces | WildcardRequestUri | StatusLineSpaces | NotSipMessage
  | AuthorizationError

datatype fault = Err error | Panic

type_synonym 'a result = "fault + 'a"

definition byte :: "char \<Rightarrow> nat" where
  "byte c = of_char c"

text \<open>\<open>string(b)\<close> for a byte \<open>b\<close>: the UTF-8 encoding of the code point \<open>b\<close>, one byte
  below 0x80 and two bytes from 0x80 on.\<close>

definition byteString :: "char \<Rightarrow> string" where
  "byteString b =
     (if byte b < 128 then [b]
      else [char_of (192 + byte b div 64), char_of (128 + byte b mod 64)])"

text \<open>\<open>strings.Index\<close>: the byte index of the first occurrence, or \<open>-1\<close>.\<close>

fun strings_Index :: "string \<Rightarrow> string \<Rightarrow> int" where
  "strings_Index [] sub = (if sub = [] then 0 else -1)"
| "strings_Index (c # s) sub =
     (if take (length sub) (c # s) = sub then 0
      else (let i = strings_Index s sub in if i < 0 then -1 else i + 1))"

definition strings_Contains :: "string \<Rightarrow> string \<Rightarrow> bool" where
  "strings_Contains s sub = (0 \<le> strings_Index s sub)"

text \<open>\<open>strings.Count\<close>, \<open>strings.Split\<close>: the parser calls them with a separator of one
  ASCII byte only, which is the second argument here.\<close>

definition strings_Count :: "string \<Rightarrow> char \<Rightarrow> nat" where
  "strings_Count s c = length (filter (\<lambda>x. x = c) s)"

fun strings_Split :: "string \<Rightarrow> char \<Rightarrow> string list" where
  "strings_Split [] sep = [[]]"
| "strings_Split (c # s) sep =
     (if c = sep then [] # strings_Split s sep
      else (case strings_Split s sep of
              [] \<Rightarrow> [[c]]
            | p # ps \<Rightarrow> (c # p) # ps))"

fun strings_Join :: "string list \<Rightarrow> string \<Rightarrow> string" where
  "strings_Join [] sep = []"
| "strings_Join [p] sep = p"
| "strings_Join (p # q # ps) sep = p @ sep @ strings_Join (q # ps) sep"

text \<open>The constant \<open>abnfWs = " \t"\<close>, and the test
  \<open>strings.Contains(abnfWs, string(b))\<close> for a byte or a rune \<open>b\<close>.\<close>

definition abnfWs :: string where
  "abnfWs = [CHR '' '', CHR 0x09]"

definition isAbnfWs :: "char \<Rightarrow> bool" where
  "isAbnfWs b = strings_Contains abnfWs (byteString b)"

text \<open>\<open>strings.ContainsAny\<close>, \<open>strings.IndexAny\<close>, \<open>strings.TrimLeft\<close> with a set of ASCII
  characters.\<close>

definition strings_ContainsAny :: "string \<Rightarrow> string \<Rightarrow> bool" where
  "strings_ContainsAny s chars = list_ex (\<lambda>c. List.member chars c) s"

fun strings_IndexAny :: "string \<Rightarrow> string \<Rightarrow> int" where
  "strings_IndexAny [] chars = -1"
| "strings_IndexAny (c # s) chars =
     (if List.member chars c then 0
      else (let i = strings_IndexAny s chars in if i < 0 then -1 else i + 1))"

definition strings_TrimLeft :: "string \<Rightarrow> string \<Rightarrow> string" where
  "strings_TrimLeft s cutset = dropWhile (\<lambda>c. List.member cutset c) s"

text \<open>
  \<open>strings.TrimSpace\<close> removes the leading and the trailing runes for which
  \<open>unicode.IsSpace\<close> holds.  A byte below 0x80 is its own rune; a rune from 0x80 on is
  decoded only from its one valid UTF-8 encoding (anything else decodes to the error rune,
  which is no space), so a white-space rune stands at an end of the string exactly when
  one of the encodings below does.
\<close>

definition asciiSpace :: "char \<Rightarrow> bool" where
  "asciiSpace c =
     (c = CHR 0x09 \<or> c = CHR 0x0A \<or> c = CHR 0x0B \<or> c = CHR 0x0C \<or> c = CHR 0x0D \<or> c = CHR 0x20)"

definition spaceRunes :: "string list" where
  "spaceRunes =
     [[CHR 0xC2, CHR 0x85], [CHR 0xC2, CHR 0xA0], [CHR 0xE1, CHR 0x9A, CHR 0x80],
      [CHR 0xE2, CHR 0x80, CHR 0x80], [CHR 0xE2, CHR 0x80, CHR 0x81],
      [CHR 0xE2, CHR 0x80, CHR 0x82], [CHR 0xE2, CHR 0x80, CHR 0x83],
      [CHR 0xE2, CHR 0x80, CHR 0x84], [CHR 0xE2, CHR 0x80, CHR 0x85],
      [CHR 0xE2, CHR 0x80, CHR 0x86], [CHR 0xE2, CHR 0x80, CHR 0x87],
      [CHR 0xE2, CHR 0x80, CHR 0x88], [CHR 0xE2, CHR 0x80, CHR 0x89],
      [CHR 0xE2, CHR 0x80, CHR 0x8A], [CHR 0xE2, CHR 0x80, CHR 0xA8],
      [CHR 0xE2, CHR 0x80, CHR 0xA9], [CHR 0xE2, CHR 0x80, CHR 0xAF],
      [CHR 0xE2, CHR 0x81, CHR 0x9F], [CHR 0xE3, CHR 0x80, CHR 0x80]]"

text \<open>The width in bytes of the white-space rune at the start (at the end) of the string,
  0 when there is none.\<close>

definition leadingSpace :: "string \<Rightarrow> nat" where
  "leadingSpace s =
     (case s of
        [] \<Rightarrow> 0
      | c # _ \<Rightarrow>
          if asciiSpace c then 1
          else (case filter (\<lambda>e. take (length e) s = e) spaceRunes of
                  [] \<Rightarrow> 0
                | e # _ \<Rightarrow> length e))"

definition trailingSpace :: "string \<Rightarrow> nat" where
  "trailingSpace s =
     (case rev s of
        [] \<Rightarrow> 0
      | c # _ \<Rightarrow>
          if asciiSpace c then 1
          else (case filter (\<lambda>e. take (length e) (rev s) = rev e) spaceRunes of
                  [] \<Rightarrow> 0
                | e # _ \<Rightarrow> length e))"

function TrimLeftSpace :: "string \<Rightarrow> string" where
  "TrimLeftSpace s =
     (if leadingSpace s = 0 \<or> s = [] then s else TrimLeftSpace (drop (leadingSpace s) s))"
  by pat_completeness auto
termination
  by (relation "measure length") auto

function TrimRightSpace :: "string \<Rightarrow> string" where
  "TrimRightSpace s =
     (if trailingSpace s = 0 \<or> s = [] then s
      else TrimRightSpace (take (length s - trailingSpace s) s))"
  by pat_completeness auto
termination
  by (relation "measure length") auto

definition strings_TrimSpace :: "string \<Rightarrow> string" where
  "strings_TrimSpace s = TrimRightSpace (TrimLeftSpace s)"

text \<open>
  \<open>strings.ToLower\<close> and \<open>strings.ToUpper\<close> map the letters of a string of ASCII bytes
  only; a string with a byte from 0x80 on is mapped rune by rune through the Unicode case
  tables, which are no part of this development: that mapping is the parameter
  \<open>lowerU\<close> (\<open>upperU\<close>) of the functions below, and every theorem holds for any such
  mapping.  The third parameter is the parser of the \<open>Authorization\<close> headers, which the
  registry names and whose code is not among the sources.
\<close>

definition isASCII :: "string \<Rightarrow> bool" where
  "isASCII s = list_all (\<lambda>c. byte c < 128) s"

definition lowerByte :: "char \<Rightarrow> char" where
  "lowerByte c = (if 65 \<le> byte c \<and> byte c \<le> 90 then char_of (byte c + 32) else c)"

definition upperByte :: "char \<Rightarrow> char" where
  "upperByte c = (if 97 \<le> byte c \<and> byte c \<le> 122 then char_of (byte c - 32) else c)"

definition strings_ToLower :: "(string \<Rightarrow> string) \<Rightarrow> string \<Rightarrow> string" where
  "strings_ToLower lowerU s = (if isASCII s then map lowerByte s else lowerU s)"

definition strings_ToUpper :: "(string \<Rightarrow> string) \<Rightarrow> string \<Rightarrow> string" where
  "strings_ToUpper upperU s = (if isASCII s then map upperByte s else upperU s)"

text \<open>
  \<open>strconv.ParseUint(s, 10, bitSize)\<close>: the empty string and a byte that is no decimal
  digit are syntax errors, a value above \<open>2^bitSize - 1\<close> is a range error, found in
  the order of the bytes.  (With \<open>bitSize \<le> 32\<close> the accumulator stays far below the
  64-bit cutoff of the library.)  The value is an \<open>int\<close>, as are the numbers the
  headers carry.
\<close>

definition isDigit :: "char \<Rightarrow> bool" where
  "isDigit c = (48 \<le> byte c \<and> byte c \<le> 57)"

fun parseUintLoop :: "int \<Rightarrow> string \<Rightarrow> int \<Rightarrow> error + int" where
  "parseUintLoop maxVal [] n = Inr n"
| "parseUintLoop maxVal (c # cs) n =
     (if \<not> isDigit c then Inl NumSyntax
      else (let n1 = n * 10 + int (byte c - 48) in
            if n1 > maxVal then Inl NumRange else parseUintLoop maxVal cs n1))"

definition strconv_ParseUint :: "string \<Rightarrow> nat \<Rightarrow> error + int" where
  "strconv_ParseUint s bitSize =
     (if s = [] then Inl NumSyntax else parseUintLoop (2 ^ bitSize - 1) s 0)"


section \<open>Parameters\<close>

text \<open>
  Modelled from the spec: the type \<open>Params\<close> with \<open>NewParams\<close>, \<open>Add\<close> and \<open>Length\<close>,
  whose code is not among the sources, is an ordered multimap from a parameter name to an
  optional value that preserves insertion order and may repeat a key.  \<open>Add\<close> appends
  the pair it is given; a \<open>MaybeString\<close> is \<open>None\<close> for \<open>nil\<close>.
\<close>

type_synonym Params = "(string \<times> string option) list"

definition NewParams :: Params where
  "NewParams = []"

definition Add :: "Params \<Rightarrow> string \<Rightarrow> string option \<Rightarrow> Params" where
  "Add ps k v = ps @ [(k, v)]"

definition Length :: "Params \<Rightarrow> nat" where
  "Length ps = length ps"

text \<open>
  \<open>ParseParams\<close> returns \<open>(params, consumed, err)\<close>, and \<open>parseViaHeader\<close> reads the
  parameters of a failed parse, so the model returns all three.  \<open>paramsEnd\<close> is the code
  after the loop, \<open>parseLoop\<close> the loop itself on the bytes from \<open>source[consumed]\<close> on;
  a \<open>return\<close> inside the loop leaves with the parameters added so far.  The cases of the
  \<open>switch\<close> are tried in the order \<open>end\<close>, \<open>sep\<close>, \<open>'"'\<close>, \<open>'='\<close>.  The delimiter
  0 is the byte \<open>CHR 0x00\<close>.
\<close>

definition paramsEnd ::
  "bool \<Rightarrow> Params \<Rightarrow> nat \<Rightarrow> string \<Rightarrow> string \<Rightarrow> bool \<Rightarrow> bool \<Rightarrow> Params \<times> nat \<times> error option"
where
  "paramsEnd permitSingletons params consumed buffer key parsingKey inQuotes =
     (if inQuotes then (params, consumed, Some UnclosedQuotes)
      else if parsingKey \<and> permitSingletons then (Add params buffer None, consumed, None)
      else if parsingKey then (params, consumed, Some SingletonParam)
      else (Add params key (Some buffer), consumed, None))"

fun parseLoop ::
  "char \<Rightarrow> char \<Rightarrow> bool \<Rightarrow> bool \<Rightarrow> string \<Rightarrow> nat \<Rightarrow> string \<Rightarrow> string \<Rightarrow> bool \<Rightarrow> bool \<Rightarrow> Params
     \<Rightarrow> Params \<times> nat \<times> error option"
where
  "parseLoop sep end quoteValues permitSingletons [] consumed buffer key parsingKey inQuotes params =
     paramsEnd permitSingletons params consumed buffer key parsingKey inQuotes"
| "parseLoop sep end quoteValues permitSingletons (c # rest) consumed buffer key parsingKey inQuotes params =
     (if c = end then
        (if inQuotes then
           parseLoop sep end quoteValues permitSingletons rest (consumed + 1)
             (buffer @ byteString end) key parsingKey inQuotes params
         else paramsEnd permitSingletons params consumed buffer key parsingKey inQuotes)
      else if c = sep then
        (if inQuotes then
           parseLoop sep end quoteValues permitSingletons rest (consumed + 1)
             (buffer @ byteString sep) key parsingKey inQuotes params
         else if parsingKey \<and> permitSingletons then
           parseLoop sep end quoteValues permitSingletons rest (consumed + 1)
             [] key True inQuotes (Add params buffer None)
         else if parsingKey then (params, consumed, Some SingletonParam)
         else
           parseLoop sep end quoteValues permitSingletons rest (consumed + 1)
             [] key True inQuotes (Add params key (Some buffer)))
      else if c = CHR 0x22 then
        (if \<not> quoteValues then
           parseLoop sep end quoteValues permitSingletons rest (consumed + 1)
             (buffer @ [CHR 0x22]) key parsingKey inQuotes params
         else if parsingKey then (params, consumed, Some QuoteInKey)
         else if \<not> inQuotes \<and> buffer \<noteq> [] then (params, consumed, Some QuoteMidValue)
         else if inQuotes \<and> rest \<noteq> [] \<and> hd rest \<noteq> sep then
           (params, consumed, Some CharAfterQuote)
         else
           parseLoop sep end quoteValues permitSingletons rest (consumed + 1)
             buffer key parsingKey (\<not> inQuotes) params)
      else if c = CHR ''='' then
        (if buffer = [] then (params, consumed, Some EmptyKey)
         else if \<not> parsingKey then (params, consumed, Some EqualsInValue)
         else
           parseLoop sep end quoteValues permitSingletons rest (consumed + 1)
             [] buffer False inQuotes params)
      else
        (if \<not> inQuotes \<and> isAbnfWs c then
           parseLoop sep end quoteValues permitSingletons rest (consumed + 1)
             buffer key parsingKey inQuotes params
         else
           parseLoop sep end quoteValues permitSingletons rest (consumed + 1)
             (buffer @ byteString c) key parsingKey inQuotes params))"

definition ParseParams ::
  "string \<Rightarrow> char \<Rightarrow> char \<Rightarrow> char \<Rightarrow> bool \<Rightarrow> bool \<Rightarrow> Params \<times> nat \<times> error option"
where
  "ParseParams source start sep end quoteValues permitSingletons =
     (if source = [] then (NewParams, 0, None)
      else if start \<noteq> CHR 0x00 then
        (if hd source \<noteq> start then (NewParams, 0, Some ExpectedStart)
         else parseLoop sep end quoteValues permitSingletons (tl source) 1
                [] [] True False NewParams)
      else parseLoop sep end quoteValues permitSingletons source 0
             [] [] True False NewParams)"

section \<open>URIs\<close>

text \<open>A \<open>SipUri\<close> carries the fields \<open>ParseSipUri\<close> assigns; the port is a \<open>*Port\<close>,
  \<open>None\<close> for \<open>nil\<close>.\<close>

record SipUri =
  FIsEncrypted :: bool
  FUser :: "string option"
  FPassword :: "string option"
  FHost :: string
  FPort :: "int option"
  FUriParams :: Params
  FHeaders :: Params

datatype Uri = SipUriV SipUri | WildcardUri

definition ParseHostPort :: "string \<Rightarrow> error + (string \<times> int option)" where
  "ParseHostPort rawText =
     (let colonIdx = strings_Index rawText '':'' in
      if colonIdx = -1 then Inr (rawText, None)
      else (case strconv_ParseUint (drop (nat colonIdx + 1) rawText) 16 of
              Inl e \<Rightarrow> Inl e
            | Inr portRaw \<Rightarrow> Inr (take (nat colonIdx) rawText, Some portRaw)))"

text \<open>
  \<open>ParseSipUri\<close> in the order of its text.  \<open>sipUriScheme\<close> is the check of the protocol
  name: it slices \<open>uriStr[:3]\<close>, \<open>uriStr[0:1]\<close> and reads \<open>uriStr[0]\<close> without a check of
  the length, and returns the flag \<open>FIsEncrypted\<close> and the text after the colon.
\<close>

definition sipUriScheme :: "(string \<Rightarrow> string) \<Rightarrow> string \<Rightarrow> (bool \<times> string) result" where
  "sipUriScheme lowerU uriStr =
     (if length uriStr < 3 then Inl Panic
      else if strings_ToLower lowerU (take 3 uriStr) \<noteq> ''sip'' then Inl (Err InvalidProtocolName)
      else (let uriStr1 = drop 3 uriStr in
            if uriStr1 = [] then Inl Panic
            else (let secure = (strings_ToLower lowerU (take 1 uriStr1) = ''s'');
                      uriStr2 = (if secure then drop 1 uriStr1 else uriStr1) in
                  if uriStr2 = [] then Inl Panic
                  else if hd uriStr2 \<noteq> CHR '':'' then Inl (Err NoColonAfterProtocol)
                  else Inr (secure, drop 1 uriStr2))))"

text \<open>The user-info part: the user, the password and the text after the \<open>@\<close>.\<close>

definition sipUriUserInfo :: "string \<Rightarrow> string option \<times> string option \<times> string" where
  "sipUriUserInfo uriStr =
     (let endOfUserInfoPart = strings_Index uriStr ''@'' in
      if endOfUserInfoPart \<noteq> -1 then
        (let i = strings_Index uriStr '':'';
             endOfUsernamePart = (if i > endOfUserInfoPart then -1 else i) in
         if endOfUsernamePart = -1 then
           (Some (take (nat endOfUserInfoPart) uriStr), None,
            drop (nat endOfUserInfoPart + 1) uriStr)
         else
           (Some (take (nat endOfUsernamePart) uriStr),
            Some (take (nat endOfUserInfoPart - (nat endOfUsernamePart + 1))
                    (drop (nat endOfUsernamePart + 1) uriStr)),
            drop (nat endOfUserInfoPart + 1) uriStr))
      else (None, None, uriStr))"

text \<open>The end of the host[:port] part of the text after the user-info part.\<close>

definition endOfUriPart :: "string \<Rightarrow> nat" where
  "endOfUriPart uriStr =
     (let i = strings_Index uriStr '';'';
          j = (if i = -1 then strings_Index uriStr ''?'' else i) in
      if j = -1 then length uriStr else nat j)"

text \<open>The URI parameters and the URI headers, from the text that follows the host[:port]
  part when that text is not empty.\<close>

definition sipUriParams :: "string \<Rightarrow> error + (Params \<times> Params)" where
  "sipUriParams uriStr =
     (case (if hd uriStr = CHR '';''
            then ParseParams uriStr (CHR '';'') (CHR '';'') (CHR ''?'') True True
            else (NewParams, 0, None)) of
        (uriParams, n, Some e) \<Rightarrow> Inl e
      | (uriParams, n, None) \<Rightarrow>
          (case ParseParams (drop n uriStr) (CHR ''?'') (CHR ''&'') (CHR 0x00) True False of
             (headers, m, Some e) \<Rightarrow> Inl e
           | (headers, m, None) \<Rightarrow>
               if length (drop m (drop n uriStr)) > 0 then Inl UriEndedEarly
               else Inr (uriParams, headers)))"

definition ParseSipUri :: "(string \<Rightarrow> string) \<Rightarrow> string \<Rightarrow> SipUri result" where
  "ParseSipUri lowerU uriStr =
     (case sipUriScheme lowerU uriStr of
        Inl f \<Rightarrow> Inl f
      | Inr (secure, afterScheme) \<Rightarrow>
          (case sipUriUserInfo afterScheme of
             (user, password, afterUser) \<Rightarrow>
               (case ParseHostPort (take (endOfUriPart afterUser) afterUser) of
                  Inl e \<Rightarrow> Inl (Err e)
                | Inr (host, port) \<Rightarrow>
                    (let rest = drop (endOfUriPart afterUser) afterUser in
                     if length rest = 0 then
                       Inr \<lparr>FIsEncrypted = secure, FUser = user, FPassword = password,
                            FHost = host, FPort = port,
                            FUriParams = NewParams, FHeaders = NewParams\<rparr>
                     else (case sipUriParams rest of
                             Inl e \<Rightarrow> Inl (Err e)
                           | Inr (uriParams, headers) \<Rightarrow>
                               Inr \<lparr>FIsEncrypted = secure, FUser = user, FPassword = password,
                                    FHost = host, FPort = port,
                                    FUriParams = uriParams, FHeaders = headers\<rparr>)))))"

definition ParseUri :: "(string \<Rightarrow> string) \<Rightarrow> string \<Rightarrow> Uri result" where
  "ParseUri lowerU uriStr =
     (if strings_TrimSpace uriStr = ''*'' then Inr WildcardUri
      else (let colonIdx = strings_Index uriStr '':'' in
            if colonIdx = -1 then Inl (Err NoColonInUri)
            else (let scheme = strings_ToLower lowerU (take (nat colonIdx) uriStr) in
                  if scheme = ''sip'' \<or> scheme = ''sips'' then
                    (case ParseSipUri lowerU uriStr of
                       Inl f \<Rightarrow> Inl f
                     | Inr sipUri \<Rightarrow> Inr (SipUriV sipUri))
                  else Inl (Err UnsupportedScheme))))"


section \<open>Address values\<close>

text \<open>
  \<open>findAnyUnescaped\<close>: the index of the first byte of \<open>text\<close> that is one of the targets
  and stands outside every pair of delimiters, or \<open>-1\<close>.  \<open>endChars\<close> is the map from
  an opening delimiter to its closing one; the loop state is \<open>escaped\<close>, \<open>endEscape\<close>.
\<close>

fun findLoop :: "string \<Rightarrow> (char \<rightharpoonup> char) \<Rightarrow> string \<Rightarrow> nat \<Rightarrow> bool \<Rightarrow> char \<Rightarrow> int" where
  "findLoop targets endChars [] idx escaped endEscape = -1"
| "findLoop targets endChars (c # rest) idx escaped endEscape =
     (if \<not> escaped \<and> strings_Contains targets (byteString c) then int idx
      else if escaped then findLoop targets endChars rest (idx + 1) (c \<noteq> endEscape) endEscape
      else (case endChars c of
              Some e \<Rightarrow> findLoop targets endChars rest (idx + 1) True e
            | None \<Rightarrow> findLoop targets endChars rest (idx + 1) False (CHR 0x00)))"

definition findAnyUnescaped :: "string \<Rightarrow> string \<Rightarrow> (char \<times> char) list \<Rightarrow> int" where
  "findAnyUnescaped text targets delims =
     findLoop targets (fold (\<lambda>(start, end) m. m(start \<mapsto> end)) delims Map.empty)
       text 0 False (CHR 0x00)"

definition findUnescaped :: "string \<Rightarrow> char \<Rightarrow> (char \<times> char) list \<Rightarrow> int" where
  "findUnescaped text target delims = findAnyUnescaped text (byteString target) delims"

definition quotesDelim :: "char \<times> char" where
  "quotesDelim = (CHR 0x22, CHR 0x22)"

text \<open>
  \<open>ParseAddressValue\<close>.  \<open>addressUriBounds\<close> is the part that works out where the URI
  starts and ends: from the trimmed text after the display name it gives the text the URI
  is cut from, \<open>endOfUri\<close> and \<open>startOfParams\<close>.  It reads \<open>addressText[0]\<close> without a
  check of the length.  \<open>ParseAddressValue\<close> then slices \<open>addressText[:endOfUri]\<close>,
  which panics for a negative \<open>endOfUri\<close>.
\<close>

definition addressUriBounds :: "string option \<Rightarrow> string \<Rightarrow> (string \<times> int \<times> int) result" where
  "addressUriBounds displayName addressText =
     (if addressText = [] then Inl Panic
      else if hd addressText \<noteq> CHR ''<'' then
        (if displayName \<noteq> None then Inl (Err NoAngleAfterDisplayName)
         else (let i = strings_Index addressText '';'';
                   endOfUri = (if i = -1 then int (length addressText) else i) in
               Inr (addressText, endOfUri, endOfUri)))
      else (let addressText1 = drop 1 addressText;
                endOfUri = strings_Index addressText1 ''>'' in
            if endOfUri = 0 then Inl (Err AngleWithoutClose)
            else Inr (addressText1, endOfUri, endOfUri + 1)))"

definition addressDisplayName :: "string \<Rightarrow> (string option \<times> string) result" where
  "addressDisplayName addressText =
     (let firstAngleBracket = findUnescaped addressText (CHR ''<'') [quotesDelim] in
      if firstAngleBracket > 0 then
        (if hd addressText = CHR 0x22 then
           (let addressText1 = drop 1 addressText;
                nextQuote = strings_Index addressText1 [CHR 0x22] in
            if nextQuote = -1 then Inl (Err UnclosedDisplayQuote)
            else Inr (Some (take (nat nextQuote) addressText1),
                      drop (nat nextQuote + 1) addressText1))
         else Inr (Some (strings_TrimSpace (take (nat firstAngleBracket) addressText)),
                   drop (nat firstAngleBracket) addressText))
      else Inr (None, addressText))"

definition ParseAddressValue ::
  "(string \<Rightarrow> string) \<Rightarrow> string \<Rightarrow> (string option \<times> Uri \<times> Params) result"
where
  "ParseAddressValue lowerU addressText =
     (if length addressText = 0 then Inl (Err AddressEmpty)
      else
        (case addressDisplayName (strings_TrimSpace addressText) of
           Inl f \<Rightarrow> Inl f
         | Inr (displayName, afterName) \<Rightarrow>
             (case addressUriBounds displayName (strings_TrimSpace afterName) of
                Inl f \<Rightarrow> Inl f
              | Inr (addressText1, endOfUri, startOfParams) \<Rightarrow>
                  if endOfUri < 0 \<or> int (length addressText1) < endOfUri then Inl Panic
                  else
                    (case ParseUri lowerU (take (nat endOfUri) addressText1) of
                       Inl f \<Rightarrow> Inl f
                     | Inr uri \<Rightarrow>
                         if startOfParams \<ge> int (length addressText1)
                         then Inr (displayName, uri, NewParams)
                         else
                           (case ParseParams (drop (nat startOfParams) addressText1)
                                   (CHR '';'') (CHR '';'') (CHR '','') True True of
                              (headerParams, n, Some e) \<Rightarrow> Inl (Err e)
                            | (headerParams, n, None) \<Rightarrow>
                                Inr (displayName, uri, headerParams))))))"

text \<open>
  \<open>ParseAddressValues\<close> ranges over the runes of \<open>addresses + ","\<close> and compares each
  with an ASCII character.  An ASCII byte is never part of the encoding of another rune,
  so the loop sees the four characters at exactly the byte positions that hold them, and
  the model ranges over the bytes.  The three result slices grow together.
\<close>

fun addressesLoop ::
  "(string \<Rightarrow> string) \<Rightarrow> string \<Rightarrow> string \<Rightarrow> nat \<Rightarrow> nat \<Rightarrow> bool \<Rightarrow> bool
     \<Rightarrow> string option list \<times> Uri list \<times> Params list
     \<Rightarrow> (string option list \<times> Uri list \<times> Params list) result"
where
  "addressesLoop lowerU addresses [] idx prevIdx inBrackets inQuotes acc = Inr acc"
| "addressesLoop lowerU addresses (char # rest) idx prevIdx inBrackets inQuotes acc =
     (if char = CHR ''<'' \<and> \<not> inQuotes then
        addressesLoop lowerU addresses rest (idx + 1) prevIdx True inQuotes acc
      else if char = CHR ''>'' \<and> \<not> inQuotes then
        addressesLoop lowerU addresses rest (idx + 1) prevIdx False inQuotes acc
      else if char = CHR 0x22 then
        addressesLoop lowerU addresses rest (idx + 1) prevIdx inBrackets (\<not> inQuotes) acc
      else if \<not> inQuotes \<and> \<not> inBrackets \<and> char = CHR '','' then
        (case ParseAddressValue lowerU (take (idx - prevIdx) (drop prevIdx addresses)) of
           Inl f \<Rightarrow> Inl f
         | Inr (displayName, uri, params) \<Rightarrow>
             (case acc of (displayNames, uris, headerParams) \<Rightarrow>
                addressesLoop lowerU addresses rest (idx + 1) (idx + 1) inBrackets inQuotes
                  (displayNames @ [displayName], uris @ [uri], headerParams @ [params])))
      else addressesLoop lowerU addresses rest (idx + 1) prevIdx inBrackets inQuotes acc)"

definition ParseAddressValues ::
  "(string \<Rightarrow> string) \<Rightarrow> string \<Rightarrow> (string option list \<times> Uri list \<times> Params list) result"
where
  "ParseAddressValues lowerU addresses =
     addressesLoop lowerU (addresses @ '','') (addresses @ '','') 0 0 False False ([], [], [])"

section \<open>Headers and their parsers\<close>

text \<open>
  Modelled from the spec: the header types, whose declarations are not among the sources.
  Each constructor carries what the parser of that header assigns: the address headers a
  display name, a URI and the parameters; \<open>CSeq\<close> the sequence number and the method;
  \<open>ViaHeader\<close> its hops; the two authorization headers a parameter set; a
  \<open>GenericHeader\<close> the raw name and the raw value.
\<close>

record ViaHop =
  ProtocolName :: string
  ProtocolVersion :: string
  Transport :: string
  Host :: string
  Port :: "int option"
  Params :: Params

datatype Header =
    ToHeader "string option" Uri Params
  | FromHeader "string option" Uri Params
  | ContactHeader "string option" Uri Params
  | CallID string
  | CSeq int string
  | ViaHeader "ViaHop list"
  | MaxForwards int
  | ContentLength int
  | Expires int
  | UserAgentHeader string
  | AllowHeader "string list"
  | ContentType string
  | Accept string
  | RequireHeader "string list"
  | SupportedHeader "string list"
  | RouteHeader "Uri list"
  | RecordRouteHeader "Uri list"
  | Authorization Params
  | ProxyAuthorization Params
  | GenericHeader string string

type_synonym HeaderParser = "string \<Rightarrow> string \<Rightarrow> Header list result"

text \<open>
  \<open>parseAddressHeader\<close>: the loop over the parsed addresses is \<open>addressHeaderLoop\<close>, on
  the addresses from index \<open>idx\<close> on, and \<open>addressHeader\<close> is its body, which builds
  one header or returns.  Both URI types are a \<open>ContactUri\<close>, so the \<open>default\<close> case of
  the type switch of a contact is not reached by a parsed URI.  The loop runs under the
  \<open>case\<close> of the six names only; the last branch of \<open>addressHeader\<close> stands for the
  \<open>nil\<close> header that no call can append.
\<close>

definition addressHeader ::
  "string \<Rightarrow> nat \<Rightarrow> string option \<Rightarrow> Uri \<Rightarrow> Params \<Rightarrow> Header result"
where
  "addressHeader headerName idx displayName uri params =
     (if headerName = ''to'' \<or> headerName = ''t'' then
        (if idx > 0 then Inl (Err MultipleTo)
         else (case uri of
                 WildcardUri \<Rightarrow> Inl (Err WildcardInTo)
               | SipUriV u \<Rightarrow> Inr (ToHeader displayName uri params)))
      else if headerName = ''from'' \<or> headerName = ''f'' then
        (if idx > 0 then Inl (Err MultipleFrom)
         else (case uri of
                 WildcardUri \<Rightarrow> Inl (Err WildcardInFrom)
               | SipUriV u \<Rightarrow> Inr (FromHeader displayName uri params)))
      else if headerName = ''contact'' \<or> headerName = ''m'' then
        (if uri = WildcardUri \<and> Length params > 0 then Inl (Err WildcardContactParams)
         else if uri = WildcardUri \<and> displayName \<noteq> None then
           Inl (Err WildcardContactDisplayName)
         else Inr (ContactHeader displayName uri params))
      else Inl Panic)"

fun addressHeaderLoop ::
  "string \<Rightarrow> (string option \<times> Uri \<times> Params) list \<Rightarrow> nat \<Rightarrow> Header list \<Rightarrow> Header list result"
where
  "addressHeaderLoop headerName [] idx headers = Inr headers"
| "addressHeaderLoop headerName (a # rest) idx headers =
     (case addressHeader headerName idx (fst a) (fst (snd a)) (snd (snd a)) of
        Inl f \<Rightarrow> Inl f
      | Inr header \<Rightarrow> addressHeaderLoop headerName rest (idx + 1) (headers @ [header]))"

definition parseAddressHeader :: "(string \<Rightarrow> string) \<Rightarrow> HeaderParser" where
  "parseAddressHeader lowerU headerName headerText =
     (if List.member [''to'', ''from'', ''contact'', ''t'', ''f'', ''m''] headerName then
        (case ParseAddressValues lowerU headerText of
           Inl f \<Rightarrow> Inl f
         | Inr (displayNames, uris, paramSets) \<Rightarrow>
             if length displayNames \<noteq> length uris then Inl (Err ParamMismatch)
             else if length uris \<noteq> length paramSets then Inl (Err ParamMismatch)
             else addressHeaderLoop headerName (zip displayNames (zip uris paramSets)) 0 [])
      else Inr [])"


text \<open>
  \<open>SplitByWhitespace\<close> ranges over the runes of the text and writes \<open>string(char)\<close> to
  its buffer: the bytes of a validly encoded rune as they are, and the three bytes of the
  replacement character U+FFFD for a byte that starts no valid encoding.  \<open>runeWidth\<close>
  is the width of the valid UTF-8 encoding at the start of a string, 0 when there is
  none (the loop then moves on by one byte).
\<close>

definition contByte :: "char \<Rightarrow> bool" where
  "contByte c = (128 \<le> byte c \<and> byte c \<le> 191)"

definition runeWidth :: "string \<Rightarrow> nat" where
  "runeWidth s =
     (case s of
        [] \<Rightarrow> 0
      | c # cs \<Rightarrow>
          (let b = byte c in
           if b < 128 then 1
           else if 194 \<le> b \<and> b \<le> 223 then
             (case cs of
                c1 # _ \<Rightarrow> if contByte c1 then 2 else 0
              | [] \<Rightarrow> 0)
           else if 224 \<le> b \<and> b \<le> 239 then
             (case cs of
                c1 # c2 # _ \<Rightarrow>
                  if (if b = 224 then 160 else 128) \<le> byte c1
                     \<and> byte c1 \<le> (if b = 237 then 159 else 191) \<and> contByte c2
                  then 3 else 0
              | _ \<Rightarrow> 0)
           else if 240 \<le> b \<and> b \<le> 244 then
             (case cs of
                c1 # c2 # c3 # _ \<Rightarrow>
                  if (if b = 240 then 144 else 128) \<le> byte c1
                     \<and> byte c1 \<le> (if b = 244 then 143 else 191)
                     \<and> contByte c2 \<and> contByte c3
                  then 4 else 0
              | _ \<Rightarrow> 0)
           else 0))"

definition runeString :: "string \<Rightarrow> string" where
  "runeString s =
     (if runeWidth s = 0 then [CHR 0xEF, CHR 0xBF, CHR 0xBD] else take (runeWidth s) s)"

function splitLoop :: "string \<Rightarrow> string \<Rightarrow> bool \<Rightarrow> string list \<Rightarrow> string list" where
  "splitLoop text buffer inString result =
     (if text = [] then (if length buffer > 0 then result @ [buffer] else result)
      else if strings_Contains abnfWs (runeString text) then
        splitLoop (drop (max 1 (runeWidth text)) text) (if inString then [] else buffer) False
          (if inString then result @ [buffer] else result)
      else
        splitLoop (drop (max 1 (runeWidth text)) text) (buffer @ runeString text) True result)"
  by pat_completeness auto
termination
  by (relation "measure (\<lambda>(text, buffer, inString, result). length text)") auto

definition SplitByWhitespace :: "string \<Rightarrow> string list" where
  "SplitByWhitespace text = splitLoop text [] True []"

definition maxCseq :: int where
  "maxCseq = 2147483647"

definition parseCSeq :: HeaderParser where
  "parseCSeq headerName headerText =
     (let parts = SplitByWhitespace headerText in
      if length parts \<noteq> 2 then Inl (Err CSeqParts)
      else (case strconv_ParseUint (parts ! 0) 32 of
              Inl e \<Rightarrow> Inl (Err e)
            | Inr seqno \<Rightarrow>
                if seqno > maxCseq then Inl (Err CSeqTooBig)
                else (let MethodName = strings_TrimSpace (parts ! 1) in
                      if strings_Contains MethodName '';'' then Inl (Err CSeqSemicolon)
                      else Inr [CSeq seqno MethodName])))"

definition parseCallId :: HeaderParser where
  "parseCallId headerName headerText =
     (let callId = strings_TrimSpace headerText in
      if strings_ContainsAny callId abnfWs then Inl (Err CallIdWhitespace)
      else if strings_Contains callId '';'' then Inl (Err CallIdSemicolon)
      else if length callId = 0 then Inl (Err CallIdEmpty)
      else Inr [CallID callId])"

text \<open>
  \<open>parseViaHeader\<close>: \<open>viaLoop\<close> is the loop over the sections and \<open>viaSection\<close> its
  body, which returns or gives the hop to append and the new value of \<open>err\<close>.  The
  variable \<open>err\<close> lives across the iterations: the error of \<open>ParseParams\<close> is not tested
  where it is assigned, and is returned by the next test of \<open>err\<close> or at the end, with
  the hop appended in between.
\<close>

definition viaSection :: "string \<Rightarrow> error option \<Rightarrow> error + (ViaHop \<times> error option)" where
  "viaSection section err =
     (let parts = strings_Split section (CHR ''/'') in
      if length parts < 3 then Inl ViaProtocolParts
      else
        (let parts2 = strings_Join (drop 2 parts) ''/'';
             initialSpaces = length parts2 - length (strings_TrimLeft parts2 abnfWs);
             sentByIdx = strings_IndexAny (drop initialSpaces parts2) abnfWs
                           + int initialSpaces + 1 in
         if sentByIdx = 0 then Inl ViaNoWhitespace
         else if sentByIdx = 1 then Inl ViaEmptyTransport
         else
           (let name = strings_TrimSpace (parts ! 0);
                version = strings_TrimSpace (parts ! 1);
                transport = strings_TrimSpace (take (nat sentByIdx - 1) parts2);
                err1 = (if length name = 0 then Some ViaNoName
                        else if length version = 0 then Some ViaNoVersion
                        else if length transport = 0 then Some ViaNoTransport
                        else err) in
            case err1 of
              Some e \<Rightarrow> Inl e
            | None \<Rightarrow>
                (let viaBody = drop (nat sentByIdx) parts2;
                     paramsIdx = strings_Index viaBody '';'' in
                 if paramsIdx = -1 then
                   (case ParseHostPort viaBody of
                      Inl e \<Rightarrow> Inl e
                    | Inr (host, port) \<Rightarrow>
                        Inr (\<lparr>ProtocolName = name, ProtocolVersion = version,
                                Transport = transport, Host = host, Port = port,
                                Params = NewParams\<rparr>, None))
                 else
                   (case ParseHostPort (take (nat paramsIdx) viaBody) of
                      Inl e \<Rightarrow> Inl e
                    | Inr (host, port) \<Rightarrow>
                        (case ParseParams (drop (nat paramsIdx) viaBody)
                                (CHR '';'') (CHR '';'') (CHR 0x00) True True of
                           (params, n, e) \<Rightarrow>
                             Inr (\<lparr>ProtocolName = name, ProtocolVersion = version,
                                     Transport = transport, Host = host, Port = port,
                                     Params = params\<rparr>, e)))))))"

fun viaLoop :: "string list \<Rightarrow> error option \<Rightarrow> ViaHop list \<Rightarrow> error + ViaHop list" where
  "viaLoop [] err via = (case err of None \<Rightarrow> Inr via | Some e \<Rightarrow> Inl e)"
| "viaLoop (section # rest) err via =
     (case viaSection section err of
        Inl e \<Rightarrow> Inl e
      | Inr hop_err \<Rightarrow> viaLoop rest (snd hop_err) (via @ [fst hop_err]))"

definition parseViaHeader :: HeaderParser where
  "parseViaHeader headerName headerText =
     (case viaLoop (strings_Split headerText (CHR '','')) None [] of
        Inl e \<Rightarrow> Inl (Err e)
      | Inr via \<Rightarrow> Inr [ViaHeader via])"

definition parseMaxForwards :: HeaderParser where
  "parseMaxForwards headerName headerText =
     (case strconv_ParseUint (strings_TrimSpace headerText) 32 of
        Inl e \<Rightarrow> Inl (Err e)
      | Inr v \<Rightarrow> Inr [MaxForwards v])"

definition parseExpires :: HeaderParser where
  "parseExpires headerName headerText =
     (case strconv_ParseUint (strings_TrimSpace headerText) 32 of
        Inl e \<Rightarrow> Inl (Err e)
      | Inr v \<Rightarrow> Inr [Expires v])"

definition parseContentLength :: HeaderParser where
  "parseContentLength headerName headerText =
     (case strconv_ParseUint (strings_TrimSpace headerText) 32 of
        Inl e \<Rightarrow> Inl (Err e)
      | Inr v \<Rightarrow> Inr [ContentLength v])"

definition parseUserAgent :: HeaderParser where
  "parseUserAgent headerName headerText = Inr [UserAgentHeader (strings_TrimSpace headerText)]"

definition parseContentType :: HeaderParser where
  "parseContentType headerName headerText = Inr [ContentType (strings_TrimSpace headerText)]"

definition parseAccept :: HeaderParser where
  "parseAccept headerName headerText = Inr [Accept (strings_TrimSpace headerText)]"

definition parseAllow :: HeaderParser where
  "parseAllow headerName headerText =
     Inr [AllowHeader (map strings_TrimSpace (strings_Split headerText (CHR '','')))]"

definition parseRequire :: HeaderParser where
  "parseRequire headerName headerText =
     Inr [RequireHeader (map strings_TrimSpace (strings_Split headerText (CHR '','')))]"

definition parseSupported :: HeaderParser where
  "parseSupported headerName headerText =
     Inr [SupportedHeader (map strings_TrimSpace (strings_Split headerText (CHR '','')))]"

definition parseRouteHeader :: "(string \<Rightarrow> string) \<Rightarrow> HeaderParser" where
  "parseRouteHeader lowerU headerName headerText =
     (case ParseAddressValues lowerU headerText of
        Inl f \<Rightarrow> Inl f
      | Inr (displayNames, uris, paramSets) \<Rightarrow> Inr [RouteHeader uris])"

definition parseRecordRouteHeader :: "(string \<Rightarrow> string) \<Rightarrow> HeaderParser" where
  "parseRecordRouteHeader lowerU headerName headerText =
     (case ParseAddressValues lowerU headerText of
        Inl f \<Rightarrow> Inl f
      | Inr (displayNames, uris, paramSets) \<Rightarrow> Inr [RecordRouteHeader uris])"

section \<open>The registry of header parsers\<close>

text \<open>
  \<open>defaultHeaderParsers\<close> is the map literal of the source, its keys spelled as the
  source spells them.  The parser \<open>parseAuthorization\<close>, which two keys name, is not among
  the sources and is a parameter.  \<open>SetHeaderParser\<close> stores under the lower-cased name;
  \<open>newHeaderParsers\<close> is the map \<open>NewParser\<close> builds by registering every default entry.
  (Go ranges over a map in no fixed order; the lower-cased keys are distinct, so the
  order does not matter.)
\<close>

definition defaultHeaderParsersList ::
  "(string \<Rightarrow> string) \<Rightarrow> HeaderParser \<Rightarrow> (string \<times> HeaderParser) list"
where
  "defaultHeaderParsersList lowerU parseAuthorization =
     [(''to'', parseAddressHeader lowerU),
      (''t'', parseAddressHeader lowerU),
      (''from'', parseAddressHeader lowerU),
      (''f'', parseAddressHeader lowerU),
      (''contact'', parseAddressHeader lowerU),
      (''m'', parseAddressHeader lowerU),
      (''Call-ID'', parseCallId),
      (''cseq'', parseCSeq),
      (''via'', parseViaHeader),
      (''v'', parseViaHeader),
      (''max-forwards'', parseMaxForwards),
      (''content-length'', parseContentLength),
      (''l'', parseContentLength),
      (''expires'', parseExpires),
      (''user-agent'', parseUserAgent),
      (''allow'', parseAllow),
      (''content-type'', parseContentType),
      (''accept'', parseAccept),
      (''c'', parseContentType),
      (''require'', parseRequire),
      (''supported'', parseSupported),
      (''route'', parseRouteHeader lowerU),
      (''record-route'', parseRecordRouteHeader lowerU),
      (''Authorization'', parseAuthorization),
      (''Proxy-Authorization'', parseAuthorization)]"

definition defaultHeaderParsers ::
  "(string \<Rightarrow> string) \<Rightarrow> HeaderParser \<Rightarrow> (string \<rightharpoonup> HeaderParser)"
where
  "defaultHeaderParsers lowerU parseAuthorization =
     map_of (defaultHeaderParsersList lowerU parseAuthorization)"

definition SetHeaderParser ::
  "(string \<Rightarrow> string) \<Rightarrow> (string \<rightharpoonup> HeaderParser) \<Rightarrow> string \<Rightarrow> HeaderParser
     \<Rightarrow> (string \<rightharpoonup> HeaderParser)"
where
  "SetHeaderParser lowerU headerParsers headerName headerParser =
     headerParsers(strings_ToLower lowerU headerName \<mapsto> headerParser)"

definition newHeaderParsers ::
  "(string \<Rightarrow> string) \<Rightarrow> HeaderParser \<Rightarrow> (string \<rightharpoonup> HeaderParser)"
where
  "newHeaderParsers lowerU parseAuthorization =
     fold (\<lambda>(headerName, headerParser) headerParsers.
             SetHeaderParser lowerU headerParsers headerName headerParser)
       (defaultHeaderParsersList lowerU parseAuthorization) Map.empty"

text \<open>
  \<open>ParseHeader\<close>: the second argument is the parser's registry, \<open>None\<close> for a \<open>nil\<close>
  parser.
\<close>

definition ParseHeader ::
  "(string \<Rightarrow> string) \<Rightarrow> HeaderParser \<Rightarrow> string \<Rightarrow> (string \<rightharpoonup> HeaderParser) option
     \<Rightarrow> Header list result"
where
  "ParseHeader lowerU parseAuthorization headerText p =
     (let colonIdx = strings_Index headerText '':'' in
      if colonIdx = -1 then Inl (Err FieldNameNoValue)
      else
        (let fieldName = strings_TrimSpace (take (nat colonIdx) headerText);
             lowerFieldName = strings_ToLower lowerU fieldName;
             fieldText = strings_TrimSpace (drop (nat colonIdx + 1) headerText);
             headerParsers = (case p of
                                None \<Rightarrow> defaultHeaderParsers lowerU parseAuthorization
                              | Some hp \<Rightarrow> hp) in
         case headerParsers lowerFieldName of
           Some headerParser \<Rightarrow> headerParser lowerFieldName fieldText
         | None \<Rightarrow> Inr [GenericHeader fieldName fieldText]))"


section \<open>Start lines\<close>

definition isRequest :: "(string \<Rightarrow> string) \<Rightarrow> string \<Rightarrow> bool" where
  "isRequest upperU startLine =
     (if strings_Count startLine (CHR '' '') \<noteq> 2 then False
      else (let parts = strings_Split startLine (CHR '' '') in
            if length parts < 3 then False
            else if length (parts ! 2) < 3 then False
            else strings_ToUpper upperU (take 3 (parts ! 2)) = ''SIP''))"

definition isResponse :: "(string \<Rightarrow> string) \<Rightarrow> string \<Rightarrow> bool" where
  "isResponse upperU startLine =
     (if strings_Count startLine (CHR '' '') < 2 then False
      else (let parts = strings_Split startLine (CHR '' '') in
            if length parts < 3 then False
            else if length (parts ! 0) < 3 then False
            else strings_ToUpper upperU (take 3 (parts ! 0)) = ''SIP''))"

definition ParseRequestLine ::
  "(string \<Rightarrow> string) \<Rightarrow> (string \<Rightarrow> string) \<Rightarrow> string \<Rightarrow> (string \<times> Uri \<times> string) result"
where
  "ParseRequestLine lowerU upperU requestLine =
     (let parts = strings_Split requestLine (CHR '' '') in
      if length parts \<noteq> 3 then Inl (Err RequestLineSpaces)
      else (case ParseUri lowerU (parts ! 1) of
              Inl f \<Rightarrow> Inl f
            | Inr recipient \<Rightarrow>
                (case recipient of
                   WildcardUri \<Rightarrow> Inl (Err WildcardRequestUri)
                 | SipUriV u \<Rightarrow>
                     Inr (strings_ToUpper upperU (parts ! 0), recipient, parts ! 2))))"

definition ParseStatusLine :: "string \<Rightarrow> (string \<times> int \<times> string) result" where
  "ParseStatusLine statusLine =
     (let parts = strings_Split statusLine (CHR '' '') in
      if length parts < 3 then Inl (Err StatusLineSpaces)
      else (case strconv_ParseUint (parts ! 1) 16 of
              Inl e \<Rightarrow> Inl (Err e)
            | Inr statusCodeRaw \<Rightarrow>
                Inr (parts ! 0, statusCodeRaw, strings_Join (drop 2 parts) '' '')))"

section \<open>Messages\<close>

text \<open>
  Modelled from the spec: the message type and its constructors \<open>CreateSimpleRequest\<close>
  and \<open>NewResponse\<close>, and the methods \<open>SetSipVersion\<close>, \<open>AddHeader\<close>, \<open>GetHeaders\<close>,
  \<open>SetBody\<close> of the header store, whose code is not among the sources.  A message is a
  request (method, request-URI, SIP version) or a response (SIP version, status code,
  reason phrase); both carry an ordered list of headers and a body.  A message is created
  from the start line with no header and an empty body; \<open>AddHeader\<close> appends; the lookup
  \<open>GetHeaders\<close> is by case-insensitive name.  \<open>Name\<close> is the field name each header
  type answers to.

  The loop hands \<open>CreateSimpleRequest\<close> the method and
  \<open>recipient.Domain().String()\<close>, the string of the domain (the host and the port) of
  the parsed request-URI, and nothing else of that URI.  Neither the \<open>String\<close> of a
  domain nor the constructor is among the sources: the request-URI that the constructor
  stores for a method, a host and a port is the parameter \<open>requestUri\<close>.
\<close>

datatype Message =
    Request string Uri string "Header list" string
  | Response string int string "Header list" string

definition CreateSimpleRequest ::
  "(string \<Rightarrow> string \<Rightarrow> int option \<Rightarrow> Uri) \<Rightarrow> string \<Rightarrow> string \<Rightarrow> int option \<Rightarrow> Message"
where
  "CreateSimpleRequest requestUri method host port =
     Request method (requestUri method host port) [] [] []"

definition NewResponse :: "string \<Rightarrow> int \<Rightarrow> string \<Rightarrow> Header list \<Rightarrow> string \<Rightarrow> Message" where
  "NewResponse sipVersion statusCode reason hdrs body =
     Response sipVersion statusCode reason hdrs body"

fun SetSipVersion :: "Message \<Rightarrow> string \<Rightarrow> Message" where
  "SetSipVersion (Request m u v hs b) version = Request m u version hs b"
| "SetSipVersion (Response v c r hs b) version = Response version c r hs b"

fun Headers :: "Message \<Rightarrow> Header list" where
  "Headers (Request m u v hs b) = hs"
| "Headers (Response v c r hs b) = hs"

fun AddHeader :: "Message \<Rightarrow> Header \<Rightarrow> Message" where
  "AddHeader (Request m u v hs b) h = Request m u v (hs @ [h]) b"
| "AddHeader (Response v c r hs b) h = Response v c r (hs @ [h]) b"

fun SetBody :: "Message \<Rightarrow> string \<Rightarrow> Message" where
  "SetBody (Request m u v hs b) body = Request m u v hs body"
| "SetBody (Response v c r hs b) body = Response v c r hs body"

fun Name :: "Header \<Rightarrow> string" where
  "Name (ToHeader d u ps) = ''To''"
| "Name (FromHeader d u ps) = ''From''"
| "Name (ContactHeader d u ps) = ''Contact''"
| "Name (CallID c) = ''Call-ID''"
| "Name (CSeq n m) = ''CSeq''"
| "Name (ViaHeader hops) = ''Via''"
| "Name (MaxForwards n) = ''Max-Forwards''"
| "Name (ContentLength n) = ''Content-Length''"
| "Name (Expires n) = ''Expires''"
| "Name (UserAgentHeader a) = ''User-Agent''"
| "Name (AllowHeader ms) = ''Allow''"
| "Name (ContentType t) = ''Content-Type''"
| "Name (Accept t) = ''Accept''"
| "Name (RequireHeader os) = ''Require''"
| "Name (SupportedHeader os) = ''Supported''"
| "Name (RouteHeader us) = ''Route''"
| "Name (RecordRouteHeader us) = ''Record-Route''"
| "Name (Authorization ps) = ''Authorization''"
| "Name (ProxyAuthorization ps) = ''Proxy-Authorization''"
| "Name (GenericHeader n c) = n"

definition GetHeaders :: "(string \<Rightarrow> string) \<Rightarrow> Message \<Rightarrow> string \<Rightarrow> Header list" where
  "GetHeaders lowerU msg name =
     filter (\<lambda>h. strings_ToLower lowerU (Name h) = strings_ToLower lowerU name) (Headers msg)"

section \<open>The input buffer and the body-length channel\<close>

text \<open>
  Modelled from the spec: the managed input buffer with \<open>NextLine\<close> and \<open>NextChunk\<close>,
  whose code is not among the sources.  The model holds the bytes written before the
  buffer was stopped.  \<open>NextLine\<close> returns the next line terminated by CRLF, without the
  terminator; \<open>NextChunk n\<close> returns the next \<open>n\<close> bytes.  A read that these bytes
  cannot satisfy returns the terminal error of the stopped buffer, and so does every
  later read (\<open>closed\<close>).  A count below zero, of which the spec says nothing, reads no
  byte.
\<close>

record parserBuffer =
  pending :: string
  closed :: bool

fun cutLine :: "string \<Rightarrow> (string \<times> string) option" where
  "cutLine [] = None"
| "cutLine (c # s) =
     (if c = CHR 0x0D \<and> take 1 s = [CHR 0x0A] then Some ([], drop 1 s)
      else (case cutLine s of
              None \<Rightarrow> None
            | Some lr \<Rightarrow> Some (c # fst lr, snd lr)))"

definition NextLine :: "parserBuffer \<Rightarrow> string option \<times> parserBuffer" where
  "NextLine b =
     (if closed b then (None, b)
      else (case cutLine (pending b) of
              None \<Rightarrow> (None, b\<lparr>closed := True\<rparr>)
            | Some lr \<Rightarrow> (Some (fst lr), b\<lparr>pending := snd lr\<rparr>)))"

definition NextChunk :: "parserBuffer \<Rightarrow> int \<Rightarrow> string option \<times> parserBuffer" where
  "NextChunk b n =
     (if closed b then (None, b)
      else if int (length (pending b)) < n then (None, b\<lparr>closed := True\<rparr>)
      else (Some (take (nat n) (pending b)), b\<lparr>pending := drop (nat n) (pending b)\<rparr>))"

text \<open>\<open>getBodyLength\<close>: what \<open>Write\<close> computes for a datagram, \<open>-1\<close> when the data has no
  double CRLF.\<close>

definition getBodyLength :: "string \<Rightarrow> int" where
  "getBodyLength s =
     (let idx = strings_Index s [CHR 0x0D, CHR 0x0A, CHR 0x0D, CHR 0x0A] in
      if idx = -1 then -1 else int (length s) - (idx + 4))"

section \<open>The framing loop\<close>

text \<open>
  The errors the loop sends down \<open>errs\<close>.  \<open>Msg\<close>, the text of the message, is modelled
  by the message itself.
\<close>

datatype malformed = MissingContentLength | MultipleContentLength

datatype broken = ReadBodyFailed | IncompleteBody

datatype parserError =
    InvalidStartLineError error
  | MalformedMessageError malformed Message
  | BrokenMessageError broken Message

text \<open>
  The state of a parser.  \<open>bodyLengths\<close> is the queue of the pairs \<open>[bl, len(data)]\<close>;
  \<open>outputs\<close> and \<open>errs\<close> are what has been sent down the channels \<open>output\<close> and
  \<open>errs\<close>, in order (a send never blocks in the model: both channels are read).
\<close>

record parser =
  headerParsers :: "string \<rightharpoonup> HeaderParser"
  streamed :: bool
  input :: parserBuffer
  bodyLengths :: "(int \<times> int) list"
  terminalErr :: "parserError option"
  outputs :: "Message list"
  errs :: "parserError list"

text \<open>How the loop ends: the buffer is closed at a start line (\<open>Exited\<close>), the goroutine
  panics, or it waits for a body length that is never sent.\<close>

datatype ending = Exited | Panicked | Blocked

datatype step = Continue parser | Stop ending parser

text \<open>The message of a start line: the first \<open>if\<close> of the loop, with \<open>termErr\<close> as the
  error.  The domain of the recipient is the host and the port that \<open>ParseSipUri\<close> has
  stored in it; \<open>ParseRequestLine\<close> returns no wild card, whose domain is not among the
  sources, so the branch of the wild card is never taken.\<close>

definition startLineMessage ::
  "(string \<Rightarrow> string) \<Rightarrow> (string \<Rightarrow> string) \<Rightarrow> (string \<Rightarrow> string \<Rightarrow> int option \<Rightarrow> Uri)
     \<Rightarrow> string \<Rightarrow> Message result"
where
  "startLineMessage lowerU upperU requestUri startLine =
     (if isRequest upperU startLine then
        (case ParseRequestLine lowerU upperU startLine of
           Inl f \<Rightarrow> Inl f
         | Inr (method, recipient, sipVersion) \<Rightarrow>
             (case recipient of
                SipUriV uri \<Rightarrow>
                  Inr (SetSipVersion
                         (CreateSimpleRequest requestUri method (FHost uri) (FPort uri))
                         sipVersion)
              | WildcardUri \<Rightarrow> Inl Panic))
      else if isResponse upperU startLine then
        (case ParseStatusLine startLine of
           Inl f \<Rightarrow> Inl f
         | Inr (sipVersion, statusCode, reason) \<Rightarrow>
             Inr (NewResponse sipVersion statusCode reason [] []))
      else Inl (Err NotSipMessage))"

text \<open>The branch \<open>termErr != nil\<close>.\<close>

definition invalidStartLine :: "parser \<Rightarrow> string \<Rightarrow> error \<Rightarrow> step" where
  "invalidStartLine p startLine termErr =
     (let e = InvalidStartLineError termErr;
          p1 = p\<lparr>terminalErr := Some e, errs := errs p @ [e]\<rparr> in
      if \<not> streamed p1 then
        (case bodyLengths p1 of
           [] \<Rightarrow> Stop Blocked p1
         | slice # q \<Rightarrow>
             (let skip = snd slice - int (length startLine) - 2 in
              Continue (p1\<lparr>bodyLengths := q, input := snd (NextChunk (input p1) skip)\<rparr>)))
      else Continue p1)"

text \<open>\<open>flushBuffer\<close>, and the body of the loop over the header lines for one line: the
  headers at the end of the block, or the new buffer and the headers to go on with.\<close>

definition flushBuffer ::
  "(string \<Rightarrow> string) \<Rightarrow> HeaderParser \<Rightarrow> (string \<rightharpoonup> HeaderParser) \<Rightarrow> string \<Rightarrow> Header list
     \<Rightarrow> Header list result"
where
  "flushBuffer lowerU parseAuthorization hp buffer hdrs =
     (if length buffer > 0 then
        (case ParseHeader lowerU parseAuthorization buffer (Some hp) of
           Inr newHeaders \<Rightarrow> Inr (hdrs @ newHeaders)
         | Inl (Err e) \<Rightarrow> Inr hdrs
         | Inl Panic \<Rightarrow> Inl Panic)
      else Inr hdrs)"

datatype headerStep = EndOfHeaders "Header list" | NextHeaderLine string "Header list"

definition headerLine ::
  "(string \<Rightarrow> string) \<Rightarrow> HeaderParser \<Rightarrow> (string \<rightharpoonup> HeaderParser) \<Rightarrow> string \<Rightarrow> string
     \<Rightarrow> Header list \<Rightarrow> headerStep result"
where
  "headerLine lowerU parseAuthorization hp line buffer hdrs =
     (if length line = 0 then
        (case flushBuffer lowerU parseAuthorization hp buffer hdrs of
           Inl f \<Rightarrow> Inl f
         | Inr hdrs1 \<Rightarrow> Inr (EndOfHeaders hdrs1))
      else if \<not> isAbnfWs (hd line) then
        (case flushBuffer lowerU parseAuthorization hp buffer hdrs of
           Inl f \<Rightarrow> Inl f
         | Inr hdrs1 \<Rightarrow> Inr (NextHeaderLine line hdrs1))
      else if length buffer > 0 then Inr (NextHeaderLine (buffer @ '' '' @ line) hdrs)
      else Inr (NextHeaderLine buffer hdrs))"


lemma cutLine_shorter: "cutLine s = Some lr \<Longrightarrow> length (snd lr) < length s"
proof (induction s arbitrary: lr)
  case Nil
  then show ?case by simp
next
  case (Cons c s)
  show ?case
  proof (cases "c = CHR 0x0D \<and> take 1 s = [CHR 0x0A]")
    case True
    with Cons.prems show ?thesis by auto
  next
    case False
    with Cons.prems obtain lr' where "cutLine s = Some lr'" "snd lr = snd lr'"
      by (auto split: option.splits)
    with Cons.IH show ?thesis by fastforce
  qed
qed

lemma NextLine_shorter:
  "NextLine b = (Some line, b') \<Longrightarrow> length (pending b') < length (pending b)"
  by (auto simp: NextLine_def split: if_splits option.splits dest: cutLine_shorter)

lemma NextLine_not_longer: "length (pending (snd (NextLine b))) \<le> length (pending b)"
  by (auto simp: NextLine_def split: if_splits option.splits dest: cutLine_shorter less_imp_le)

lemma NextChunk_not_longer: "length (pending (snd (NextChunk b n))) \<le> length (pending b)"
  by (simp add: NextChunk_def)

text \<open>The loop over the header lines: the headers and the buffer after the block.  A
  failed read leaves the loop without a flush.\<close>

function readHeaders ::
  "(string \<Rightarrow> string) \<Rightarrow> HeaderParser \<Rightarrow> (string \<rightharpoonup> HeaderParser) \<Rightarrow> parserBuffer \<Rightarrow> string
     \<Rightarrow> Header list \<Rightarrow> (Header list \<times> parserBuffer) result"
where
  "readHeaders lowerU parseAuthorization hp inp buffer hdrs =
     (case NextLine inp of
        (None, inp1) \<Rightarrow> Inr (hdrs, inp1)
      | (Some line, inp1) \<Rightarrow>
          (case headerLine lowerU parseAuthorization hp line buffer hdrs of
             Inl f \<Rightarrow> Inl f
           | Inr (EndOfHeaders hdrs1) \<Rightarrow> Inr (hdrs1, inp1)
           | Inr (NextHeaderLine buffer1 hdrs1) \<Rightarrow>
               readHeaders lowerU parseAuthorization hp inp1 buffer1 hdrs1))"
  by pat_completeness auto
termination
  by (relation "measure (\<lambda>(lowerU, parseAuthorization, hp, inp, buffer, hdrs). length (pending inp))")
     (auto dest: NextLine_shorter [OF sym])

text \<open>Reading the body of a message and sending the message.\<close>

definition readBody :: "parser \<Rightarrow> Message \<Rightarrow> int \<Rightarrow> step" where
  "readBody p msg contentLength =
     (case NextChunk (input p) contentLength of
        (None, inp1) \<Rightarrow>
          (let termErr = BrokenMessageError ReadBodyFailed msg in
           Continue (p\<lparr>input := inp1, terminalErr := Some termErr, errs := errs p @ [termErr]\<rparr>))
      | (Some body, inp1) \<Rightarrow>
          if int (length body) \<noteq> contentLength then
            (let termErr = BrokenMessageError IncompleteBody msg in
             Continue (p\<lparr>input := inp1, terminalErr := Some termErr,
                         errs := errs p @ [termErr]\<rparr>))
          else
            Continue (p\<lparr>input := inp1,
                        outputs := outputs p @
                          [if strings_TrimSpace body \<noteq> [] then SetBody msg body else msg]\<rparr>))"

text \<open>The length of the body, from the message with its headers stored: the
  \<open>Content-Length\<close> header in stream mode, the next pair of the channel otherwise.\<close>

definition finishMessage :: "(string \<Rightarrow> string) \<Rightarrow> parser \<Rightarrow> Message \<Rightarrow> step" where
  "finishMessage lowerU p msg =
     (if streamed p then
        (let contentLengthHeaders = GetHeaders lowerU msg ''Content-Length'' in
         if length contentLengthHeaders = 0 then
           (let termErr = MalformedMessageError MissingContentLength msg in
            Continue (p\<lparr>terminalErr := Some termErr, errs := errs p @ [termErr]\<rparr>))
         else if length contentLengthHeaders > 1 then
           (let termErr = MalformedMessageError MultipleContentLength msg in
            Continue (p\<lparr>terminalErr := Some termErr, errs := errs p @ [termErr]\<rparr>))
         else (case contentLengthHeaders ! 0 of
                 ContentLength n \<Rightarrow> readBody p msg n
               | _ \<Rightarrow> Stop Panicked p))
      else
        (case bodyLengths p of
           [] \<Rightarrow> Stop Blocked p
         | slice # q \<Rightarrow> readBody (p\<lparr>bodyLengths := q\<rparr>) msg (fst slice)))"

text \<open>One turn of the outer loop.\<close>

definition parseMessage ::
  "(string \<Rightarrow> string) \<Rightarrow> (string \<Rightarrow> string) \<Rightarrow> (string \<Rightarrow> string \<Rightarrow> int option \<Rightarrow> Uri)
     \<Rightarrow> HeaderParser \<Rightarrow> parser \<Rightarrow> step"
where
  "parseMessage lowerU upperU requestUri parseAuthorization p =
     (case NextLine (input p) of
        (None, inp1) \<Rightarrow> Stop Exited (p\<lparr>input := inp1\<rparr>)
      | (Some startLine, inp1) \<Rightarrow>
          (case startLineMessage lowerU upperU requestUri startLine of
             Inl Panic \<Rightarrow> Stop Panicked (p\<lparr>input := inp1\<rparr>)
           | Inl (Err termErr) \<Rightarrow> invalidStartLine (p\<lparr>input := inp1\<rparr>) startLine termErr
           | Inr msg \<Rightarrow>
               (case readHeaders lowerU parseAuthorization (headerParsers p) inp1 [] [] of
                  Inl f \<Rightarrow> Stop Panicked (p\<lparr>input := inp1\<rparr>)
                | Inr (hdrs, inp2) \<Rightarrow>
                    finishMessage lowerU (p\<lparr>input := inp2\<rparr>) (fold (\<lambda>h m. AddHeader m h) hdrs msg))))"

lemma readHeaders_not_longer:
  "readHeaders lowerU pa hp inp buffer hdrs = Inr (hdrs1, inp1)
     \<Longrightarrow> length (pending inp1) \<le> length (pending inp)"
proof (induction lowerU pa hp inp buffer hdrs rule: readHeaders.induct)
  case (1 lowerU pa hp inp buffer hdrs)
  obtain r inp' where nl: "NextLine inp = (r, inp')" by (cases "NextLine inp")
  have le: "length (pending inp') \<le> length (pending inp)"
    using NextLine_not_longer [of inp] nl by simp
  show ?case
  proof (cases r)
    case None
    with "1.prems" nl le show ?thesis by (simp add: readHeaders.simps [of _ _ _ inp])
  next
    case (Some line)
    show ?thesis
    proof (cases "headerLine lowerU pa hp line buffer hdrs")
      case (Inl f)
      with "1.prems" nl Some show ?thesis by (simp add: readHeaders.simps [of _ _ _ inp])
    next
      case (Inr hs)
      show ?thesis
      proof (cases hs)
        case (EndOfHeaders h)
        with "1.prems" nl Some Inr le show ?thesis
          by (simp add: readHeaders.simps [of _ _ _ inp])
      next
        case (NextHeaderLine b h)
        with "1.prems" nl Some Inr
        have "readHeaders lowerU pa hp inp' b h = Inr (hdrs1, inp1)"
          by (simp add: readHeaders.simps [of _ _ _ inp])
        with "1.IH" [OF nl [symmetric] Some Inr NextHeaderLine]
        have "length (pending inp1) \<le> length (pending inp')" by simp
        with le show ?thesis by simp
      qed
    qed
  qed
qed

lemma readBody_input:
  "readBody p msg n = Continue p1 \<Longrightarrow> length (pending (input p1)) \<le> length (pending (input p))"
  using NextChunk_not_longer [of "input p" n]
  by (auto simp: readBody_def Let_def split: prod.splits option.splits if_splits)

lemma finishMessage_input:
  "finishMessage lowerU p msg = Continue p1
     \<Longrightarrow> length (pending (input p1)) \<le> length (pending (input p))"
  by (auto simp: finishMessage_def Let_def split: if_splits list.splits Header.splits
           dest: readBody_input)

lemma invalidStartLine_input:
  "invalidStartLine p startLine e = Continue p1
     \<Longrightarrow> length (pending (input p1)) \<le> length (pending (input p))"
  using NextChunk_not_longer [of "input p"]
  by (auto simp: invalidStartLine_def Let_def split: if_splits list.splits)

lemma parseMessage_shorter:
  assumes "parseMessage lowerU upperU requestUri pa p = Continue p1"
  shows "length (pending (input p1)) < length (pending (input p))"
proof -
  obtain r inp1 where nl: "NextLine (input p) = (r, inp1)" by (cases "NextLine (input p)")
  with assms obtain startLine where r: "r = Some startLine"
    by (cases r) (auto simp: parseMessage_def)
  from nl r have lt: "length (pending inp1) < length (pending (input p))"
    by (auto dest: NextLine_shorter)
  show ?thesis
  proof (cases "startLineMessage lowerU upperU requestUri startLine")
    case (Inl f)
    with assms nl r lt show ?thesis
      by (cases f) (auto simp: parseMessage_def dest!: invalidStartLine_input)
  next
    case (Inr msg)
    with assms nl r obtain hdrs inp2 where
      rh: "readHeaders lowerU pa (headerParsers p) inp1 [] [] = Inr (hdrs, inp2)" and
      fm: "finishMessage lowerU (p\<lparr>input := inp2\<rparr>) (fold (\<lambda>h m. AddHeader m h) hdrs msg)
             = Continue p1"
      by (auto simp: parseMessage_def split: sum.splits)
    from readHeaders_not_longer [OF rh] finishMessage_input [OF fm] lt show ?thesis by simp
  qed
qed

text \<open>
  The loop \<open>parse\<close>: how it ends, and the parser then.  Every turn that goes on has read
  a start line, so the loop comes to an end on every input.
\<close>

function parse ::
  "(string \<Rightarrow> string) \<Rightarrow> (string \<Rightarrow> string) \<Rightarrow> (string \<Rightarrow> string \<Rightarrow> int option \<Rightarrow> Uri)
     \<Rightarrow> HeaderParser \<Rightarrow> parser \<Rightarrow> ending \<times> parser"
where
  "parse lowerU upperU requestUri parseAuthorization p =
     (case parseMessage lowerU upperU requestUri parseAuthorization p of
        Stop e p1 \<Rightarrow> (e, p1)
      | Continue p1 \<Rightarrow> parse lowerU upperU requestUri parseAuthorization p1)"
  by pat_completeness auto
termination
  by (relation "measure (\<lambda>(lowerU, upperU, requestUri, pa, p). length (pending (input p)))")
     (auto dest: parseMessage_shorter)

text \<open>
  \<open>NewParser\<close>: the parser as it is built, with the registry of the default parsers,
  an empty buffer and an empty channel.  \<open>Write\<close> on a parser that is not stopped: in
  datagram mode data without a double CRLF is dropped, other data is queued with its pair
  of lengths.  The loop runs beside the writer in the source; the model runs \<open>parse\<close>
  on a parser that holds all that was written before the buffer was stopped.
\<close>

definition NewParser :: "(string \<Rightarrow> string) \<Rightarrow> HeaderParser \<Rightarrow> bool \<Rightarrow> parser" where
  "NewParser lowerU parseAuthorization streamed0 =
     \<lparr>headerParsers = newHeaderParsers lowerU parseAuthorization,
      streamed = streamed0,
      input = \<lparr>pending = [], closed = False\<rparr>,
      bodyLengths = [],
      terminalErr = None,
      outputs = [],
      errs = []\<rparr>"

definition Write :: "parser \<Rightarrow> string \<Rightarrow> parser" where
  "Write p data =
     (if \<not> streamed p then
        (let bl = getBodyLength data in
         if bl = -1 then p
         else p\<lparr>bodyLengths := bodyLengths p @ [(bl, int (length data))],
                input := (input p)\<lparr>pending := pending (input p) @ data\<rparr>\<rparr>)
      else p\<lparr>input := (input p)\<lparr>pending := pending (input p) @ data\<rparr>\<rparr>)"

text \<open>A parser of the \<open>Authorization\<close> headers to run the examples with: it rejects
  every header.\<close>

definition rejectAuthorization :: HeaderParser where
  "rejectAuthorization headerName headerText = Inl (Err AuthorizationError)"

text \<open>A constructor to run the examples with: the request-URI it stores is the SIP URI
  of the domain, with no user, no parameter and no header.\<close>

definition domainUri :: "string \<Rightarrow> string \<Rightarrow> int option \<Rightarrow> Uri" where
  "domainUri method host port =
     SipUriV \<lparr>FIsEncrypted = False, FUser = None, FPassword = None,
              FHost = host, FPort = port, FUriParams = [], FHeaders = []\<rparr>"

definition CRLF :: string where
  "CRLF = [CHR 0x0D, CHR 0x0A]"

section \<open>The notions the claims speak of\<close>

text \<open>The number a string of decimal digits denotes, read from the left with the
  accumulator \<open>n\<close>.\<close>

fun digitsValue :: "int \<Rightarrow> string \<Rightarrow> int" where
  "digitsValue n [] = n"
| "digitsValue n (c # cs) = digitsValue (n * 10 + int (byte c - 48)) cs"

text \<open>
  The tokens of a text, as the claim about \<open>CSeq\<close> has them: the maximal runs of bytes
  other than space and tab.  \<open>validRunes\<close> is the text as \<open>SplitByWhitespace\<close> reads it,
  rune by rune: every byte that starts no valid UTF-8 encoding is read as the three bytes
  of U+FFFD.  \<open>splitBytes\<close> is the loop of \<open>SplitByWhitespace\<close> over the bytes of such a
  text.
\<close>

definition blank :: "char \<Rightarrow> bool" where
  "blank c = (c = CHR '' '' \<or> c = CHR 0x09)"

function validRunes :: "string \<Rightarrow> string" where
  "validRunes s =
     (if s = [] then [] else runeString s @ validRunes (drop (max 1 (runeWidth s)) s))"
  by pat_completeness auto
termination
  by (relation "measure length") auto

function tokens :: "string \<Rightarrow> string list" where
  "tokens s =
     (let s1 = dropWhile blank s in
      if s1 = [] then []
      else takeWhile (\<lambda>c. \<not> blank c) s1 # tokens (dropWhile (\<lambda>c. \<not> blank c) s1))"
  by pat_completeness auto
termination
proof (relation "measure length")
  fix s s1 :: string
  assume s1: "s1 = dropWhile blank s" and ne: "s1 \<noteq> []"
  have "length (dropWhile (\<lambda>c. \<not> blank c) s1) < length s1"
  proof (cases s1)
    case Nil with ne show ?thesis by simp
  next
    case (Cons c cs)
    with s1 have "\<not> blank c" by (metis hd_dropWhile list.sel(1) ne)
    with Cons show ?thesis by (simp add: length_dropWhile_le le_imp_less_Suc)
  qed
  moreover have "length s1 \<le> length s" using s1 by (simp add: length_dropWhile_le)
  ultimately show "(dropWhile (\<lambda>c. \<not> blank c) s1, s) \<in> measure length" by simp
qed simp

declare tokens.simps [simp del] validRunes.simps [simp del]

fun splitBytes :: "string \<Rightarrow> string \<Rightarrow> bool \<Rightarrow> string list \<Rightarrow> string list" where
  "splitBytes [] buffer inString result = (if buffer \<noteq> [] then result @ [buffer] else result)"
| "splitBytes (c # s) buffer inString result =
     (if blank c then splitBytes s (if inString then [] else buffer) False
                        (if inString then result @ [buffer] else result)
      else splitBytes s (buffer @ [c]) True result)"

text \<open>The parser a turn of the loop leaves.\<close>

fun parserOf :: "step \<Rightarrow> parser" where
  "parserOf (Continue p) = p"
| "parserOf (Stop e p) = p"

text \<open>The status code of a response lies between two bounds (a request has none).\<close>

definition statusInRange :: "int \<Rightarrow> int \<Rightarrow> Message \<Rightarrow> bool" where
  "statusInRange lo hi msg =
     (case msg of
        Request m u v hs b \<Rightarrow> True
      | Response v statusCode r hs b \<Rightarrow> lo \<le> statusCode \<and> statusCode \<le> hi)"

text \<open>
  The end of the host section of a SIP URI, in the text after the user-info part: as the
  claim has it, the first semicolon or question mark, whichever comes first, else the end
  of the text; and as the code has it, the first semicolon when there is one, else the
  first question mark, else the end of the text.
\<close>

definition firstSemicolonOrQuestion :: "string \<Rightarrow> nat" where
  "firstSemicolonOrQuestion r = length (takeWhile (\<lambda>c. c \<noteq> CHR '';'' \<and> c \<noteq> CHR ''?'') r)"

definition hostSectionEnd :: "string \<Rightarrow> nat" where
  "hostSectionEnd r =
     (if CHR '';'' \<in> set r then length (takeWhile (\<lambda>c. c \<noteq> CHR '';'') r)
      else length (takeWhile (\<lambda>c. c \<noteq> CHR ''?'') r))"





section \<open>Facts about the strings\<close>

text \<open>A byte is found by \<open>strings.Index\<close> exactly when it is in the string, and
  \<open>strings.TrimSpace\<close> removes no ASCII byte but the six white-space ones.\<close>

lemma strings_Index_char_nonneg: "-1 \<le> strings_Index s [c]"
  by (induction s) (auto simp: Let_def)

lemma strings_Index_char_iff: "0 \<le> strings_Index s [c] \<longleftrightarrow> c \<in> set s"
  by (induction s) (auto simp: Let_def)

lemma strings_Contains_char: "strings_Contains s [c] \<longleftrightarrow> c \<in> set s"
  by (simp add: strings_Contains_def strings_Index_char_iff)

lemma spaceRunes_all_high: "list_all (list_all (\<lambda>x. 128 \<le> byte x)) spaceRunes"
  by code_simp

lemma spaceRunes_high: "e \<in> set spaceRunes \<Longrightarrow> x \<in> set e \<Longrightarrow> 128 \<le> byte x"
  using spaceRunes_all_high by (simp add: list_all_iff)

lemma leadingSpace_bytes:
  assumes "x \<in> set (take (leadingSpace s) s)"
  shows "asciiSpace x \<or> 128 \<le> byte x"
proof (cases s)
  case Nil
  with assms show ?thesis by simp
next
  case (Cons c cs)
  show ?thesis
  proof (cases "asciiSpace c")
    case True
    with Cons assms show ?thesis by (simp add: leadingSpace_def)
  next
    case False
    show ?thesis
    proof (cases "filter (\<lambda>e. take (length e) s = e) spaceRunes")
      case Nil
      with Cons False assms show ?thesis by (simp add: leadingSpace_def)
    next
      case (Cons e es)
      then have mem: "e \<in> set (filter (\<lambda>e. take (length e) s = e) spaceRunes)" by simp
      then have e: "e \<in> set spaceRunes" "take (length e) s = e" by simp_all
      from Cons False \<open>s = c # cs\<close> have "leadingSpace s = length e"
        by (simp add: leadingSpace_def)
      with assms e have "x \<in> set e" by simp
      with e(1) show ?thesis by (blast dest: spaceRunes_high)
    qed
  qed
qed

lemma trailingSpace_bytes:
  assumes "x \<in> set (drop (length s - trailingSpace s) s)"
  shows "asciiSpace x \<or> 128 \<le> byte x"
proof (cases "rev s")
  case Nil
  with assms show ?thesis by simp
next
  case (Cons c cs)
  then have "rev (rev s) = rev (c # cs)" by simp
  then have s: "s = rev cs @ [c]" by simp
  show ?thesis
  proof (cases "asciiSpace c")
    case True
    with Cons have "trailingSpace s = 1" by (simp add: trailingSpace_def)
    with assms s True show ?thesis by simp
  next
    case False
    show ?thesis
    proof (cases "filter (\<lambda>e. take (length e) (rev s) = rev e) spaceRunes")
      case Nil
      with Cons False have "trailingSpace s = 0" by (simp add: trailingSpace_def)
      with assms show ?thesis by simp
    next
      case (Cons e es)
      then have mem: "e \<in> set (filter (\<lambda>e. take (length e) (rev s) = rev e) spaceRunes)"
        by simp
      then have e: "e \<in> set spaceRunes" "take (length e) (rev s) = rev e" by simp_all
      from Cons False \<open>rev s = c # cs\<close> have k: "trailingSpace s = length e"
        by (simp add: trailingSpace_def)
      from e(2) have "length (take (length e) (rev s)) = length (rev e)" by simp
      then have le: "length e \<le> length s" by simp
      then have "rev (drop (length s - length e) s) = take (length e) (rev s)"
        by (simp add: rev_drop)
      with e(2) have "rev (drop (length s - length e) s) = rev e" by simp
      then have "drop (length s - length e) s = e" by simp
      then have "set (drop (length s - length e) s) = set e" by simp
      with assms k e(1) show ?thesis by (auto dest: spaceRunes_high)
    qed
  qed
qed

lemma TrimLeftSpace_keeps:
  "\<not> asciiSpace x \<Longrightarrow> byte x < 128 \<Longrightarrow> x \<in> set (TrimLeftSpace s) \<longleftrightarrow> x \<in> set s"
proof (induction s rule: TrimLeftSpace.induct)
  case (1 s)
  show ?case
  proof (cases "leadingSpace s = 0 \<or> s = []")
    case True
    then show ?thesis by (simp add: TrimLeftSpace.simps [of s])
  next
    case False
    then have "x \<in> set (TrimLeftSpace (drop (leadingSpace s) s))
                 \<longleftrightarrow> x \<in> set (drop (leadingSpace s) s)"
      using "1.IH" "1.prems" by simp
    moreover have "x \<notin> set (take (leadingSpace s) s)"
      using leadingSpace_bytes [of x s] "1.prems" by auto
    moreover have "set s = set (take (leadingSpace s) s) \<union> set (drop (leadingSpace s) s)"
      by (simp add: set_append [symmetric] del: set_append)
    ultimately show ?thesis using False by (simp add: TrimLeftSpace.simps [of s])
  qed
qed

lemma TrimRightSpace_keeps:
  "\<not> asciiSpace x \<Longrightarrow> byte x < 128 \<Longrightarrow> x \<in> set (TrimRightSpace s) \<longleftrightarrow> x \<in> set s"
proof (induction s rule: TrimRightSpace.induct)
  case (1 s)
  show ?case
  proof (cases "trailingSpace s = 0 \<or> s = []")
    case True
    then have "TrimRightSpace s = s" by (subst TrimRightSpace.simps) simp
    then show ?thesis by simp
  next
    case False
    then have unfold: "TrimRightSpace s = TrimRightSpace (take (length s - trailingSpace s) s)"
      by (subst TrimRightSpace.simps) simp
    from False have "x \<in> set (TrimRightSpace (take (length s - trailingSpace s) s))
                 \<longleftrightarrow> x \<in> set (take (length s - trailingSpace s) s)"
      by (intro "1.IH" "1.prems")
    moreover have "x \<notin> set (drop (length s - trailingSpace s) s)"
      using trailingSpace_bytes [of x s] "1.prems" by auto
    moreover have "set (take (length s - trailingSpace s) s @ drop (length s - trailingSpace s) s)
                     = set s"
      by (simp only: append_take_drop_id)
    then have "set s = set (take (length s - trailingSpace s) s)
                           \<union> set (drop (length s - trailingSpace s) s)"
      by (simp only: set_append)
    ultimately show ?thesis by (simp only: unfold) blast
  qed
qed

lemma strings_TrimSpace_keeps:
  assumes "\<not> asciiSpace x" and "byte x < 128"
  shows "x \<in> set (strings_TrimSpace s) \<longleftrightarrow> x \<in> set s"
  unfolding strings_TrimSpace_def
  using TrimRightSpace_keeps [OF assms, of "TrimLeftSpace s"] TrimLeftSpace_keeps [OF assms, of s]
  by blast

lemma semicolon_no_space: "\<not> asciiSpace (CHR '';'')" "byte (CHR '';'') < 128"
  by code_simp+

lemma semicolon_TrimSpace: "CHR '';'' \<in> set (strings_TrimSpace s) \<longleftrightarrow> CHR '';'' \<in> set s"
  by (rule strings_TrimSpace_keeps [OF semicolon_no_space])

lemma length_two: "length xs = 2 \<longleftrightarrow> (\<exists>a b. xs = [a, b])"
  by (cases xs; cases "tl xs") auto

section \<open>Facts about the registry\<close>

lemma lower_literals:
  "strings_ToLower lowerU ''to'' = ''to''"
  "strings_ToLower lowerU ''t'' = ''t''"
  "strings_ToLower lowerU ''from'' = ''from''"
  "strings_ToLower lowerU ''f'' = ''f''"
  "strings_ToLower lowerU ''contact'' = ''contact''"
  "strings_ToLower lowerU ''m'' = ''m''"
  "strings_ToLower lowerU ''Call-ID'' = ''call-id''"
  "strings_ToLower lowerU ''cseq'' = ''cseq''"
  "strings_ToLower lowerU ''via'' = ''via''"
  "strings_ToLower lowerU ''v'' = ''v''"
  "strings_ToLower lowerU ''max-forwards'' = ''max-forwards''"
  "strings_ToLower lowerU ''content-length'' = ''content-length''"
  "strings_ToLower lowerU ''l'' = ''l''"
  "strings_ToLower lowerU ''expires'' = ''expires''"
  "strings_ToLower lowerU ''user-agent'' = ''user-agent''"
  "strings_ToLower lowerU ''allow'' = ''allow''"
  "strings_ToLower lowerU ''content-type'' = ''content-type''"
  "strings_ToLower lowerU ''accept'' = ''accept''"
  "strings_ToLower lowerU ''c'' = ''c''"
  "strings_ToLower lowerU ''require'' = ''require''"
  "strings_ToLower lowerU ''supported'' = ''supported''"
  "strings_ToLower lowerU ''route'' = ''route''"
  "strings_ToLower lowerU ''record-route'' = ''record-route''"
  "strings_ToLower lowerU ''Authorization'' = ''authorization''"
  "strings_ToLower lowerU ''Proxy-Authorization'' = ''proxy-authorization''"
  by code_simp+

lemma newHeaderParsers_lookup:
  "newHeaderParsers lowerU pa k =
     (if k = ''proxy-authorization'' \<or> k = ''authorization'' then Some pa
      else if k = ''record-route'' then Some (parseRecordRouteHeader lowerU)
      else if k = ''route'' then Some (parseRouteHeader lowerU)
      else if k = ''supported'' then Some parseSupported
      else if k = ''require'' then Some parseRequire
      else if k = ''c'' \<or> k = ''content-type'' then Some parseContentType
      else if k = ''accept'' then Some parseAccept
      else if k = ''allow'' then Some parseAllow
      else if k = ''user-agent'' then Some parseUserAgent
      else if k = ''expires'' then Some parseExpires
      else if k = ''l'' \<or> k = ''content-length'' then Some parseContentLength
      else if k = ''max-forwards'' then Some parseMaxForwards
      else if k = ''v'' \<or> k = ''via'' then Some parseViaHeader
      else if k = ''cseq'' then Some parseCSeq
      else if k = ''call-id'' then Some parseCallId
      else if k = ''m'' \<or> k = ''contact'' \<or> k = ''f'' \<or> k = ''from'' \<or> k = ''t'' \<or> k = ''to''
        then Some (parseAddressHeader lowerU)
      else None)"
  by (simp add: newHeaderParsers_def defaultHeaderParsersList_def SetHeaderParser_def
        lower_literals)

lemma defaultHeaderParsers_mixed_case:
  "defaultHeaderParsers lowerU pa ''call-id'' = None"
  "defaultHeaderParsers lowerU pa ''authorization'' = None"
  "defaultHeaderParsers lowerU pa ''proxy-authorization'' = None"
  by (simp_all add: defaultHeaderParsers_def defaultHeaderParsersList_def)

lemma newHeaderParsers_typed:
  "newHeaderParsers lowerU pa ''call-id'' = Some parseCallId"
  "newHeaderParsers lowerU pa ''authorization'' = Some pa"
  "newHeaderParsers lowerU pa ''proxy-authorization'' = Some pa"
  by (simp_all add: newHeaderParsers_lookup)

section \<open>Facts about the numbers\<close>

lemma digitsValue_mono: "0 \<le> n \<Longrightarrow> n \<le> digitsValue n s"
proof (induction s arbitrary: n)
  case Nil
  then show ?case by simp
next
  case (Cons c s)
  have "n \<le> n * 10 + int (byte c - 48)" using Cons.prems by simp
  moreover have "n * 10 + int (byte c - 48) \<le> digitsValue (n * 10 + int (byte c - 48)) s"
    using Cons.prems by (intro Cons.IH) simp
  ultimately show ?case by simp
qed

lemma parseUintLoop_iff:
  "0 \<le> n \<Longrightarrow> n \<le> maxVal \<Longrightarrow>
   parseUintLoop maxVal s n = Inr v
     \<longleftrightarrow> list_all isDigit s \<and> digitsValue n s = v \<and> v \<le> maxVal"
proof (induction s arbitrary: n)
  case Nil
  then show ?case by auto
next
  case (Cons c s)
  let ?n1 = "n * 10 + int (byte c - 48)"
  have n1: "0 \<le> ?n1" using Cons.prems by simp
  show ?case
  proof (cases "isDigit c")
    case False
    then show ?thesis by simp
  next
    case True
    show ?thesis
    proof (cases "?n1 > maxVal")
      case over: True
      have "?n1 \<le> digitsValue ?n1 s" using n1 by (rule digitsValue_mono)
      with over have "\<not> digitsValue ?n1 s \<le> maxVal" by simp
      with over True show ?thesis by (auto simp: Let_def)
    next
      case False
      with True Cons.IH [OF n1] show ?thesis by (simp add: Let_def)
    qed
  qed
qed

lemma strconv_ParseUint_iff:
  "strconv_ParseUint s bitSize = Inr v
     \<longleftrightarrow> s \<noteq> [] \<and> list_all isDigit s \<and> digitsValue 0 s = v \<and> v \<le> 2 ^ bitSize - 1"
  by (simp add: strconv_ParseUint_def parseUintLoop_iff)

lemma strconv_ParseUint_range:
  "strconv_ParseUint s bitSize = Inr v \<Longrightarrow> 0 \<le> v \<and> v \<le> 2 ^ bitSize - 1"
  using digitsValue_mono [of 0 s] by (auto simp: strconv_ParseUint_iff)

section \<open>Invariants of the framing loop\<close>

text \<open>
  What holds of every header a header parser returns holds of the headers of a block;
  what holds of every message of a start line, and is kept by \<open>AddHeader\<close> of such a
  header and by \<open>SetBody\<close>, holds of every message the loop sends.
\<close>

lemma flushBuffer_invariant:
  assumes "\<forall>text hs. ParseHeader lowerU pa text (Some hp) = Inr hs \<longrightarrow> list_all H hs"
      and "flushBuffer lowerU pa hp buffer hdrs = Inr hdrs1" and "list_all H hdrs"
  shows "list_all H hdrs1"
  using assms
  by (auto simp: flushBuffer_def split: if_splits sum.splits fault.splits)

lemma headerLine_invariant:
  assumes "\<forall>text hs. ParseHeader lowerU pa text (Some hp) = Inr hs \<longrightarrow> list_all H hs"
      and "headerLine lowerU pa hp line buffer hdrs = Inr st" and "list_all H hdrs"
  shows "case st of EndOfHeaders hdrs1 \<Rightarrow> list_all H hdrs1
                  | NextHeaderLine buffer1 hdrs1 \<Rightarrow> list_all H hdrs1"
  using assms(2,3) flushBuffer_invariant [where H = H and buffer = buffer and hdrs = hdrs, OF assms(1)]
  by (auto simp: headerLine_def split: if_splits sum.splits)

lemma readHeaders_invariant:
  "readHeaders lowerU pa hp inp buffer hdrs = Inr (hdrs1, inp1)
     \<Longrightarrow> \<forall>text hs. ParseHeader lowerU pa text (Some hp) = Inr hs \<longrightarrow> list_all H hs
     \<Longrightarrow> list_all H hdrs
     \<Longrightarrow> list_all H hdrs1"
proof (induction lowerU pa hp inp buffer hdrs rule: readHeaders.induct)
  case (1 lowerU pa hp inp buffer hdrs)
  note run = "1.prems"(1) and H = "1.prems"(2) and start = "1.prems"(3)
  obtain r inp' where nl: "NextLine inp = (r, inp')" by (cases "NextLine inp")
  show ?case
  proof (cases r)
    case None
    with run start nl show ?thesis by (simp add: readHeaders.simps [of _ _ _ inp])
  next
    case (Some line)
    show ?thesis
    proof (cases "headerLine lowerU pa hp line buffer hdrs")
      case (Inl f)
      with run nl Some show ?thesis by (simp add: readHeaders.simps [of _ _ _ inp])
    next
      case (Inr st)
      note inv = headerLine_invariant [where H = H, OF H Inr start]
      show ?thesis
      proof (cases st)
        case (EndOfHeaders h)
        with run nl Some Inr inv show ?thesis
          by (simp add: readHeaders.simps [of _ _ _ inp])
      next
        case (NextHeaderLine b h)
        with run nl Some Inr
        have "readHeaders lowerU pa hp inp' b h = Inr (hdrs1, inp1)"
          by (simp add: readHeaders.simps [of _ _ _ inp])
        moreover from inv NextHeaderLine have "list_all H h" by simp
        ultimately show ?thesis
          using "1.IH" [OF nl [symmetric] Some Inr NextHeaderLine] H by simp
      qed
    qed
  qed
qed

lemma fold_AddHeader_invariant:
  "\<forall>msg h. Q msg \<longrightarrow> H h \<longrightarrow> Q (AddHeader msg h) \<Longrightarrow> list_all H hdrs \<Longrightarrow> Q msg
     \<Longrightarrow> Q (fold (\<lambda>h m. AddHeader m h) hdrs msg)"
  by (induction hdrs arbitrary: msg) auto

lemma readBody_invariant:
  assumes "Q msg" and "\<forall>msg b. Q msg \<longrightarrow> Q (SetBody msg b)" and "list_all Q (outputs p)"
  shows "list_all Q (outputs (parserOf (readBody p msg n)))
         \<and> headerParsers (parserOf (readBody p msg n)) = headerParsers p"
  using assms
  by (auto simp: readBody_def Let_def split: prod.splits option.splits)

lemma finishMessage_invariant:
  assumes "Q msg" and "\<forall>msg b. Q msg \<longrightarrow> Q (SetBody msg b)" and "list_all Q (outputs p)"
  shows "list_all Q (outputs (parserOf (finishMessage lowerU p msg)))
         \<and> headerParsers (parserOf (finishMessage lowerU p msg)) = headerParsers p"
proof -
  have a: "\<And>q n. outputs q = outputs p \<Longrightarrow> headerParsers q = headerParsers p \<Longrightarrow>
             list_all Q (outputs (parserOf (readBody q msg n)))
             \<and> headerParsers (parserOf (readBody q msg n)) = headerParsers p"
    using readBody_invariant [OF assms(1,2)] assms(3) by metis
  show ?thesis
    using assms(3) a [of p] a [of "p\<lparr>bodyLengths := tl (bodyLengths p)\<rparr>"]
    by (auto simp: finishMessage_def Let_def split: list.splits Header.splits)
qed

lemma invalidStartLine_invariant:
  "outputs (parserOf (invalidStartLine p startLine e)) = outputs p
   \<and> headerParsers (parserOf (invalidStartLine p startLine e)) = headerParsers p"
  by (auto simp: invalidStartLine_def Let_def split: list.splits)

lemma parseMessage_invariant:
  assumes Q0: "\<forall>startLine msg. startLineMessage lowerU upperU requestUri startLine = Inr msg \<longrightarrow> Q msg"
      and QA: "\<forall>msg h. Q msg \<longrightarrow> H h \<longrightarrow> Q (AddHeader msg h)"
      and QB: "\<forall>msg b. Q msg \<longrightarrow> Q (SetBody msg b)"
      and HP: "\<forall>text hs. ParseHeader lowerU pa text (Some (headerParsers p)) = Inr hs
                 \<longrightarrow> list_all H hs"
      and out: "list_all Q (outputs p)"
  shows "list_all Q (outputs (parserOf (parseMessage lowerU upperU requestUri pa p)))
         \<and> headerParsers (parserOf (parseMessage lowerU upperU requestUri pa p)) = headerParsers p"
proof -
  obtain r inp1 where nl: "NextLine (input p) = (r, inp1)" by (cases "NextLine (input p)")
  show ?thesis
  proof (cases r)
    case None
    with nl out show ?thesis by (simp add: parseMessage_def)
  next
    case (Some startLine)
    show ?thesis
    proof (cases "startLineMessage lowerU upperU requestUri startLine")
      case (Inl f)
      with nl Some out invalidStartLine_invariant [of "p\<lparr>input := inp1\<rparr>" startLine]
      show ?thesis by (cases f) (simp_all add: parseMessage_def)
    next
      case (Inr msg0)
      with Q0 have q0: "Q msg0" by blast
      show ?thesis
      proof (cases "readHeaders lowerU pa (headerParsers p) inp1 [] []")
        case (Inl f)
        with nl Some Inr out show ?thesis by (simp add: parseMessage_def)
      next
        case rh: (Inr res)
        obtain hdrs inp2 where res: "res = (hdrs, inp2)" by (cases res)
        from readHeaders_invariant [OF rh [unfolded res] HP] have "list_all H hdrs" by simp
        with fold_AddHeader_invariant [OF QA _ q0]
        have q: "Q (fold (\<lambda>h m. AddHeader m h) hdrs msg0)" by blast
        from finishMessage_invariant [OF q QB, of "p\<lparr>input := inp2\<rparr>" lowerU] out
        show ?thesis using nl Some Inr rh res by (simp add: parseMessage_def)
      qed
    qed
  qed
qed

lemma parse_invariant:
  "\<forall>startLine msg. startLineMessage lowerU upperU requestUri startLine = Inr msg \<longrightarrow> Q msg
   \<Longrightarrow> \<forall>msg h. Q msg \<longrightarrow> H h \<longrightarrow> Q (AddHeader msg h)
   \<Longrightarrow> \<forall>msg b. Q msg \<longrightarrow> Q (SetBody msg b)
   \<Longrightarrow> \<forall>text hs. ParseHeader lowerU pa text (Some (headerParsers p)) = Inr hs
                 \<longrightarrow> list_all H hs
   \<Longrightarrow> list_all Q (outputs p)
   \<Longrightarrow> list_all Q (outputs (snd (parse lowerU upperU requestUri pa p)))"
proof (induction lowerU upperU requestUri pa p rule: parse.induct)
  case (1 lowerU upperU requestUri pa p)
  note inv = parseMessage_invariant [OF "1.prems"]
  show ?case
  proof (cases "parseMessage lowerU upperU requestUri pa p")
    case (Stop e p1)
    with inv show ?thesis by (simp add: parse.simps [of _ _ _ _ p])
  next
    case (Continue p1)
    with inv have "list_all Q (outputs p1)" "headerParsers p1 = headerParsers p" by simp_all
    with "1.IH" [OF Continue "1.prems"(1-3)] "1.prems"(4)
    have "list_all Q (outputs (snd (parse lowerU upperU requestUri pa p1)))" by simp
    with Continue show ?thesis by (simp add: parse.simps [of _ _ _ _ p])
  qed
qed

lemma statusInRange_AddHeader: "statusInRange lo hi (AddHeader msg h) = statusInRange lo hi msg"
  by (cases msg) (simp_all add: statusInRange_def)

lemma statusInRange_SetBody: "statusInRange lo hi (SetBody msg b) = statusInRange lo hi msg"
  by (cases msg) (simp_all add: statusInRange_def)

lemma ParseStatusLine_range:
  "ParseStatusLine statusLine = Inr (v, statusCode, r) \<Longrightarrow> 0 \<le> statusCode \<and> statusCode \<le> 65535"
  by (auto simp: ParseStatusLine_def Let_def split: if_splits sum.splits
           dest!: strconv_ParseUint_range)

lemma startLineMessage_status:
  "startLineMessage lowerU upperU requestUri startLine = Inr msg \<Longrightarrow> statusInRange 0 65535 msg"
  by (auto simp: startLineMessage_def statusInRange_def CreateSimpleRequest_def NewResponse_def
           split: if_splits sum.splits prod.splits Uri.splits dest: ParseStatusLine_range)

section \<open>Facts about the lines of the buffer\<close>

lemma cutLine_length:
  "cutLine s = Some lr \<Longrightarrow> length s = length (fst lr) + 2 + length (snd lr)"
proof (induction s arbitrary: lr)
  case Nil
  then show ?case by simp
next
  case (Cons c s)
  show ?case
  proof (cases "c = CHR 0x0D \<and> take 1 s = [CHR 0x0A]")
    case True
    then obtain s' where s: "s = CHR 0x0A # s'" by (cases s) auto
    from True Cons.prems have "lr = ([], drop 1 s)" by simp
    with s show ?thesis by simp
  next
    case False
    with Cons.prems obtain lr' where "cutLine s = Some lr'" "lr = (c # fst lr', snd lr')"
      by (auto split: option.splits)
    with Cons.IH [of lr'] show ?thesis by simp
  qed
qed

lemma cutLine_append:
  "cutLine s = Some lr \<Longrightarrow> cutLine (s @ rest) = Some (fst lr, snd lr @ rest)"
proof (induction s arbitrary: lr)
  case Nil
  then show ?case by simp
next
  case (Cons c s)
  from Cons.prems have ne: "s \<noteq> []" by (cases s) (auto split: if_splits)
  then have t: "take 1 (s @ rest) = take 1 s" by (cases s) simp_all
  have unfold: "cutLine ((c # s) @ rest) =
      (if c = CHR 0x0D \<and> take 1 s = [CHR 0x0A] then Some ([], drop 1 (s @ rest))
       else (case cutLine (s @ rest) of
               None \<Rightarrow> None
             | Some lr \<Rightarrow> Some (c # fst lr, snd lr)))"
    by (simp only: append_Cons cutLine.simps t)
  show ?case
  proof (cases "c = CHR 0x0D \<and> take 1 s = [CHR 0x0A]")
    case True
    then obtain s' where s: "s = CHR 0x0A # s'" by (cases s) auto
    from True have c: "c = CHR 0x0D" by simp
    from Cons.prems have "lr = ([], s')" unfolding s c by simp
    then show ?thesis unfolding s c by simp
  next
    case False
    with Cons.prems obtain lr' where "cutLine s = Some lr'" "lr = (c # fst lr', snd lr')"
      by (auto split: option.splits)
    with Cons.IH [of lr'] False show ?thesis by (simp only: unfold) simp
  qed
qed

section \<open>Facts about the host section\<close>

lemma strings_Index_char:
  "strings_Index s [c] = (if c \<in> set s then int (length (takeWhile (\<lambda>x. x \<noteq> c) s)) else -1)"
  by (induction s) (auto simp: Let_def)

lemma takeWhile_absent: "c \<notin> set s \<Longrightarrow> takeWhile (\<lambda>x. x \<noteq> c) s = s"
  by (induction s) auto

lemma endOfUriPart_eq: "endOfUriPart r = hostSectionEnd r"
  by (simp add: endOfUriPart_def hostSectionEnd_def strings_Index_char Let_def
        takeWhile_absent)

section \<open>Facts about the wild-card URI\<close>



































section \<open>Facts about the split at white space\<close>

text \<open>A rune is white space for \<open>SplitByWhitespace\<close> exactly when it is the byte of a
  space or of a tab; the bytes of every other rune, and of U+FFFD, are neither.  So the
  loop over the runes is the loop over the bytes of \<open>validRunes\<close>, and its result is the
  list of the tokens, after an empty token when the text begins with a space or a tab.\<close>

lemma abnfWs_single: "strings_Contains abnfWs [c] \<longleftrightarrow> blank c"
  by (auto simp: strings_Contains_def abnfWs_def blank_def Let_def)

lemma runeWidth_ascii: "byte c < 128 \<Longrightarrow> runeWidth (c # cs) = 1"
  by (simp add: runeWidth_def)

lemma blank_ascii: "blank c \<Longrightarrow> byte c < 128"
  unfolding blank_def by (elim disjE; hypsubst; code_simp)

lemma runeWidth_two:
  "194 \<le> byte c \<Longrightarrow> byte c \<le> 223
     \<Longrightarrow> runeWidth (c # cs) = (case cs of c1 # _ \<Rightarrow> if contByte c1 then 2 else 0 | [] \<Rightarrow> 0)"
  by (simp add: runeWidth_def Let_def)

lemma runeWidth_three:
  "224 \<le> byte c \<Longrightarrow> byte c \<le> 239
     \<Longrightarrow> runeWidth (c # cs) =
           (case cs of
              c1 # c2 # _ \<Rightarrow>
                if (if byte c = 224 then 160 else 128) \<le> byte c1
                   \<and> byte c1 \<le> (if byte c = 237 then 159 else 191) \<and> contByte c2
                then 3 else 0
            | _ \<Rightarrow> 0)"
  by (simp add: runeWidth_def Let_def)

lemma runeWidth_four:
  "240 \<le> byte c \<Longrightarrow> byte c \<le> 244
     \<Longrightarrow> runeWidth (c # cs) =
           (case cs of
              c1 # c2 # c3 # _ \<Rightarrow>
                if (if byte c = 240 then 144 else 128) \<le> byte c1
                   \<and> byte c1 \<le> (if byte c = 244 then 143 else 191)
                   \<and> contByte c2 \<and> contByte c3
                then 4 else 0
            | _ \<Rightarrow> 0)"
  by (simp add: runeWidth_def Let_def)

lemma runeWidth_none:
  "128 \<le> byte c \<Longrightarrow> byte c < 194 \<or> 244 < byte c \<Longrightarrow> runeWidth (c # cs) = 0"
  by (auto simp: runeWidth_def Let_def)

lemma runeWidth_high:
  assumes "\<not> byte c < 128" and "runeWidth (c # cs) \<noteq> 0"
  shows "2 \<le> runeWidth (c # cs) \<and> runeWidth (c # cs) \<le> length (c # cs)
         \<and> (\<forall>x \<in> set (take (runeWidth (c # cs)) (c # cs)). 128 \<le> byte x)"
proof -
  from assms(1) consider
      (two) "194 \<le> byte c" "byte c \<le> 223"
    | (three) "224 \<le> byte c" "byte c \<le> 239"
    | (four) "240 \<le> byte c" "byte c \<le> 244"
    | (none) "128 \<le> byte c" "byte c < 194 \<or> 244 < byte c"
    by linarith
  then show ?thesis
  proof cases
    case two
    from assms(2) runeWidth_two [OF two, of cs]
    obtain c1 cs1 where "cs = c1 # cs1" "contByte c1" "runeWidth (c # cs) = 2"
      by (cases cs) (auto split: if_splits)
    with assms(1) show ?thesis by (simp add: contByte_def)
  next
    case three
    from assms(2) runeWidth_three [OF three, of cs]
    obtain c1 c2 cs2 where "cs = c1 # c2 # cs2" "128 \<le> byte c1" "contByte c2"
        "runeWidth (c # cs) = 3"
      by (cases cs; cases "tl cs") (auto split: if_splits)
    with assms(1) show ?thesis by (simp add: contByte_def numeral_3_eq_3)
  next
    case four
    from assms(2) runeWidth_four [OF four, of cs]
    obtain c1 c2 c3 cs3 where "cs = c1 # c2 # c3 # cs3" "128 \<le> byte c1" "contByte c2"
        "contByte c3" "runeWidth (c # cs) = 4"
      by (cases cs; cases "tl cs"; cases "tl (tl cs)") (auto split: if_splits)
    with assms(1) show ?thesis by (simp add: contByte_def numeral_eq_Suc)
  next
    case none
    with assms(2) runeWidth_none [OF none, of cs] show ?thesis by simp
  qed
qed

lemma runeString_blank:
  assumes "blank c"
  shows "runeWidth (c # cs) = 1" "runeString (c # cs) = [c]"
  using runeWidth_ascii [OF blank_ascii [OF assms]] by (simp_all add: runeString_def)

lemma replacement_not_blank: "\<forall>x \<in> set [CHR 0xEF, CHR 0xBF, CHR 0xBD]. \<not> blank x"
  by (simp add: blank_def)

lemma high_not_blank: "128 \<le> byte x \<Longrightarrow> \<not> blank x"
  using blank_ascii [of x] by auto

lemma runeString_not_blank:
  assumes "\<not> blank c"
  shows "runeString (c # cs) \<noteq> [] \<and> (\<forall>x \<in> set (runeString (c # cs)). \<not> blank x)"
proof (cases "byte c < 128")
  case True
  then have "runeString (c # cs) = [c]" by (simp add: runeString_def runeWidth_ascii)
  with assms show ?thesis by simp
next
  case False
  show ?thesis
  proof (cases "runeWidth (c # cs) = 0")
    case True
    then show ?thesis using replacement_not_blank by (simp add: runeString_def)
  next
    case nz: False
    from runeWidth_high [OF False nz] show ?thesis
      using nz by (auto simp: runeString_def dest: high_not_blank)
  qed
qed

lemma not_contains_long:
  assumes "\<forall>x \<in> set r. \<not> blank x" "r \<noteq> []"
  shows "\<not> strings_Contains abnfWs r"
proof -
  obtain x xs where r: "r = x # xs" using assms(2) by (cases r) auto
  with assms(1) have "x \<noteq> CHR '' ''" "x \<noteq> CHR 0x09" by (auto simp: blank_def)
  then show ?thesis using r
    by (auto simp: strings_Contains_def abnfWs_def Let_def split: if_splits)
qed

lemma runeString_contains:
  "strings_Contains abnfWs (runeString (c # cs)) \<longleftrightarrow> blank c"
proof (cases "blank c")
  case True
  then show ?thesis by (simp add: runeString_blank abnfWs_single)
next
  case False
  from runeString_not_blank [OF False, of cs] not_contains_long show ?thesis
    using False by blast
qed

lemma splitBytes_append:
  "\<forall>x \<in> set r. \<not> blank x \<Longrightarrow> r \<noteq> []
     \<Longrightarrow> splitBytes (r @ s) buffer inString result = splitBytes s (buffer @ r) True result"
proof (induction r arbitrary: buffer inString)
  case Nil
  then show ?case by simp
next
  case (Cons x r)
  show ?case
  proof (cases "r = []")
    case True
    with Cons.prems show ?thesis by simp
  next
    case False
    with Cons.prems Cons.IH [of "buffer @ [x]" True] show ?thesis by simp
  qed
qed

lemma tokens_Nil: "tokens [] = []"
  by (subst tokens.simps) simp

lemma validRunes_Nil: "validRunes [] = []"
  by (subst validRunes.simps) simp

lemma tokens_no_blank:
  assumes "\<forall>x \<in> set s. \<not> blank x"
  shows "tokens (dropWhile (\<lambda>c. \<not> blank c) s) = []" "takeWhile (\<lambda>c. \<not> blank c) s = s"
proof -
  have d: "dropWhile (\<lambda>c. \<not> blank c) s = []" using assms by simp
  show "tokens (dropWhile (\<lambda>c. \<not> blank c) s) = []" unfolding d by (rule tokens_Nil)
  show "takeWhile (\<lambda>c. \<not> blank c) s = s" using assms by simp
qed

lemma splitLoop_bytes:
  "splitLoop t buffer inString result = splitBytes (validRunes t) buffer inString result"
proof (induction t buffer inString result rule: splitLoop.induct)
  case (1 t buffer inString result)
  show ?case
  proof (cases t)
    case Nil
    then show ?thesis by (simp add: splitLoop.simps [of "[]"] validRunes_Nil)
  next
    case (Cons c cs)
    have v: "validRunes t = runeString t @ validRunes (drop (max 1 (runeWidth t)) t)"
      using Cons by (subst validRunes.simps) simp
    show ?thesis
    proof (cases "blank c")
      case True
      then have c: "strings_Contains abnfWs (runeString t)" and r: "runeString t = [c]"
        using Cons by (simp_all add: runeString_blank abnfWs_single)
      from "1.IH"(1) [OF _ c] Cons
      have "splitLoop (drop (max 1 (runeWidth t)) t) (if inString then [] else buffer) False
              (if inString then result @ [buffer] else result)
            = splitBytes (validRunes (drop (max 1 (runeWidth t)) t))
                (if inString then [] else buffer) False
                (if inString then result @ [buffer] else result)"
        by (simp del: splitLoop.simps)
      then show ?thesis using Cons c r True v
        by (subst splitLoop.simps) (simp del: splitLoop.simps)
    next
      case False
      then have c: "\<not> strings_Contains abnfWs (runeString t)"
        using Cons by (simp add: runeString_contains)
      from runeString_not_blank [OF False, of cs] Cons
      have r: "runeString t \<noteq> []" "\<forall>x \<in> set (runeString t). \<not> blank x" by simp_all
      from "1.IH"(2) [OF _ c] Cons
      have "splitLoop (drop (max 1 (runeWidth t)) t) (buffer @ runeString t) True result
            = splitBytes (validRunes (drop (max 1 (runeWidth t)) t))
                (buffer @ runeString t) True result"
        by (simp del: splitLoop.simps)
      then show ?thesis using Cons c v splitBytes_append [OF r(2) r(1)]
        by (subst splitLoop.simps) (simp del: splitLoop.simps)
    qed
  qed
qed

lemma tokens_blank: "blank c \<Longrightarrow> tokens (c # s) = tokens s"
  by (subst tokens.simps, subst (2) tokens.simps) simp

lemma tokens_not_blank:
  "\<not> blank c \<Longrightarrow> tokens (c # s)
     = (c # takeWhile (\<lambda>c. \<not> blank c) s) # tokens (dropWhile (\<lambda>c. \<not> blank c) s)"
  by (subst tokens.simps) simp

lemma splitBytes_tokens:
  "(\<forall>b result. splitBytes s b True result
       = result @ (if dropWhile (\<lambda>c. \<not> blank c) s = []
                   then (if b @ s \<noteq> [] then [b @ s] else [])
                   else (b @ takeWhile (\<lambda>c. \<not> blank c) s)
                          # tokens (dropWhile (\<lambda>c. \<not> blank c) s)))
   \<and> (\<forall>result. splitBytes s [] False result = result @ tokens s)"
proof (induction s)
  case Nil
  show ?case by (simp add: tokens_Nil)
next
  case (Cons c s)
  show ?case
  proof (cases "blank c")
    case True
    with Cons show ?thesis by (simp add: tokens_blank)
  next
    case False
    from False Cons show ?thesis by (simp add: tokens_not_blank tokens_Nil tokens_no_blank)
  qed
qed

lemma SplitByWhitespace_tokens:
  "SplitByWhitespace t
     = (if t \<noteq> [] \<and> blank (hd t) then [[]] else []) @ tokens (validRunes t)"
proof (cases t)
  case Nil
  then show ?thesis
    by (simp add: SplitByWhitespace_def splitLoop.simps [of "[]"] tokens_Nil validRunes_Nil)
next
  case (Cons c cs)
  have v: "validRunes t = runeString t @ validRunes (drop (max 1 (runeWidth t)) t)"
    using Cons by (subst validRunes.simps) simp
  have s: "SplitByWhitespace t = splitBytes (validRunes t) [] True []"
    by (simp add: SplitByWhitespace_def splitLoop_bytes del: splitLoop.simps)
  show ?thesis
  proof (cases "blank c")
    case True
    with Cons v have "validRunes t = c # validRunes (drop (max 1 (runeWidth t)) t)"
      by (simp add: runeString_blank)
    then show ?thesis using s True Cons splitBytes_tokens [of "validRunes (drop (max 1 (runeWidth t)) t)"]
      by (simp add: tokens_blank)
  next
    case False
    from runeString_not_blank [OF False, of cs] Cons
    obtain x xs where r: "runeString t = x # xs" "\<not> blank x"
      by (cases "runeString t") auto
    define v where "v = validRunes t"
    from v r have hd: "v = x # (xs @ validRunes (drop (max 1 (runeWidth t)) t))"
      by (simp add: v_def)
    have tk: "tokens v = takeWhile (\<lambda>c. \<not> blank c) v # tokens (dropWhile (\<lambda>c. \<not> blank c) v)"
      unfolding hd using r(2) by (simp add: tokens_not_blank)
    have sp: "splitBytes v [] True []
       = (if \<forall>x \<in> set v. \<not> blank x then (if v \<noteq> [] then [v] else [])
          else takeWhile (\<lambda>c. \<not> blank c) v # tokens (dropWhile (\<lambda>c. \<not> blank c) v))"
      using splitBytes_tokens [of v] by simp
    have "splitBytes v [] True [] = tokens v"
    proof (cases "\<forall>x \<in> set v. \<not> blank x")
      case True
      from tokens_no_blank [OF True] tk have "tokens v = [v]" by simp
      with sp True hd show ?thesis by simp
    next
      case nb: False
      with sp tk show ?thesis by simp
    qed
    with s False Cons show ?thesis by (simp add: v_def)
  qed
qed

text \<open>When \<open>parseCSeq\<close> succeeds, in terms of the list that \<open>SplitByWhitespace\<close>
  returns.\<close>

lemma parseCSeq_iff:
  "(parseCSeq headerName headerText = Inr hs) =
     (\<exists>seq method.
        SplitByWhitespace headerText = [seq, method]
        \<and> seq \<noteq> [] \<and> list_all isDigit seq \<and> digitsValue 0 seq \<le> 2 ^ 32 - 1
        \<and> digitsValue 0 seq \<le> 2 ^ 31 - 1
        \<and> CHR '';'' \<notin> set method
        \<and> hs = [CSeq (digitsValue 0 seq) (strings_TrimSpace method)])"
proof (cases "\<exists>a b. SplitByWhitespace headerText = [a, b]")
  case False
  then have "length (SplitByWhitespace headerText) \<noteq> 2" by (simp add: length_two)
  then have "parseCSeq headerName headerText = Inl (Err CSeqParts)"
    by (simp add: parseCSeq_def Let_def)
  with False show ?thesis by auto
next
  case True
  then obtain a b where parts: "SplitByWhitespace headerText = [a, b]" by blast
  show ?thesis
  proof (cases "strconv_ParseUint a 32")
    case (Inl e)
    then have "\<not> (a \<noteq> [] \<and> list_all isDigit a \<and> digitsValue 0 a \<le> 2 ^ 32 - 1)"
      using strconv_ParseUint_iff [of a 32 "digitsValue 0 a"] by auto
    moreover from Inl parts have "parseCSeq headerName headerText = Inl (Err e)"
      by (simp add: parseCSeq_def Let_def)
    ultimately show ?thesis using parts by auto
  next
    case (Inr seqno)
    then have num: "a \<noteq> []" "list_all isDigit a" "digitsValue 0 a = seqno" "seqno \<le> 2 ^ 32 - 1"
      using strconv_ParseUint_iff [of a 32 seqno] by simp_all
    have semi: "strings_Contains (strings_TrimSpace b) '';'' \<longleftrightarrow> CHR '';'' \<in> set b"
      by (simp add: strings_Contains_char semicolon_TrimSpace)
    have "parseCSeq headerName headerText =
            (if seqno > 2147483647 then Inl (Err CSeqTooBig)
             else if CHR '';'' \<in> set b then Inl (Err CSeqSemicolon)
             else Inr [CSeq seqno (strings_TrimSpace b)])"
      using parts Inr semi by (simp add: parseCSeq_def Let_def maxCseq_def)
    with parts num show ?thesis by auto
  qed
qed

section \<open>The claims\<close>

subsection \<open>C1: a continuation line\<close>

text \<open>
  Claim C1: a header block in which the line \<open>Subject: foo\<close> is followed by the
  continuation line \<open> bar\<close> gives one logical header with the name \<open>Subject\<close> and the
  value \<open>foo bar\<close>.  The loop over the header lines gives one header named \<open>Subject\<close>,
  but its value is \<open>foo\<close>, two spaces, \<open>bar\<close>: the loop writes a space and then the
  whole continuation line, whose first byte is the space that marks it.
\<close>

theorem C1_continuation_keeps_leading_space:
  "readHeaders lowerU parseAuthorization (newHeaderParsers lowerU parseAuthorization)
     \<lparr>pending = ''Subject: foo'' @ CRLF @ '' bar'' @ CRLF @ CRLF, closed = False\<rparr> [] []
   = Inr ([GenericHeader ''Subject'' ''foo  bar''], \<lparr>pending = [], closed = False\<rparr>)"
  by code_simp

subsection \<open>C2: an angle bracket that is not closed\<close>

text \<open>
  Claim C2: for an address segment with a \<open><\<close> and no \<open>></\<close> after it,
  \<open>ParseAddressValue\<close> returns an error.  On \<open><sip:a@b\<close> the index of \<open>></\<close> is
  \<open>-1\<close>, the test \<open>endOfUri == 0\<close> does not catch it, and the slice
  \<open>addressText[:endOfUri]\<close> panics.
\<close>

theorem C2_unclosed_angle_bracket_panics:
  "ParseAddressValue lowerU ''<sip:a@b'' = Inl Panic"
  by code_simp

subsection \<open>C3: the Content-Length header in stream mode\<close>

text \<open>
  Claim C3: in stream mode, when the header block of a message has been read and the
  headers stored in the message hold no \<open>Content-Length\<close> header, or more than one, the
  loop sends a \<open>MalformedMessageError\<close> down \<open>errs\<close>, sets the terminal error to it, and
  goes on to the next turn without sending the message down the output.
\<close>

theorem C3_content_length_missing_or_repeated:
  assumes mode: "streamed p"
      and line: "NextLine (input p) = (Some startLine, inp1)"
      and start: "startLineMessage lowerU upperU requestUri startLine = Inr msg0"
      and block: "readHeaders lowerU parseAuthorization (headerParsers p) inp1 [] []
                    = Inr (hdrs, inp2)"
      and msg: "msg = fold (\<lambda>h m. AddHeader m h) hdrs msg0"
      and count: "length (GetHeaders lowerU msg ''Content-Length'') \<noteq> 1"
      and kind: "kind = (if length (GetHeaders lowerU msg ''Content-Length'') = 0
                         then MissingContentLength else MultipleContentLength)"
  shows "parseMessage lowerU upperU requestUri parseAuthorization p
           = Continue (p\<lparr>input := inp2,
                         terminalErr := Some (MalformedMessageError kind msg),
                         errs := errs p @ [MalformedMessageError kind msg]\<rparr>)
         \<and> outputs (parserOf (parseMessage lowerU upperU requestUri parseAuthorization p)) = outputs p"
proof -
  have "finishMessage lowerU (p\<lparr>input := inp2\<rparr>) msg
          = Continue (p\<lparr>input := inp2,
                        terminalErr := Some (MalformedMessageError kind msg),
                        errs := errs p @ [MalformedMessageError kind msg]\<rparr>)"
  proof (cases "length (GetHeaders lowerU msg ''Content-Length'') = 0")
    case True
    with mode kind show ?thesis by (simp add: finishMessage_def Let_def)
  next
    case False
    with count have "length (GetHeaders lowerU msg ''Content-Length'') > 1" by arith
    with mode kind False show ?thesis by (simp add: finishMessage_def Let_def)
  qed
  then have "parseMessage lowerU upperU requestUri parseAuthorization p
           = Continue (p\<lparr>input := inp2,
                         terminalErr := Some (MalformedMessageError kind msg),
                         errs := errs p @ [MalformedMessageError kind msg]\<rparr>)"
    using line start block msg by (simp add: parseMessage_def)
  then show ?thesis by simp
qed

text \<open>Witness of C3: a response with two \<open>Content-Length\<close> headers (one in its short
  form) written to a new parser in stream mode.\<close>

theorem C3_witness:
  "errs (parserOf (parseMessage (\<lambda>s. s) (\<lambda>s. s) domainUri rejectAuthorization
           (Write (NewParser (\<lambda>s. s) rejectAuthorization True)
              (''SIP/2.0 200 OK'' @ CRLF @ ''Content-Length: 0'' @ CRLF @ ''l: 0'' @ CRLF @ CRLF))))
     = [MalformedMessageError MultipleContentLength
          (Response ''SIP/2.0'' 200 ''OK'' [ContentLength 0, ContentLength 0] [])]
   \<and> terminalErr (parserOf (parseMessage (\<lambda>s. s) (\<lambda>s. s) domainUri rejectAuthorization
           (Write (NewParser (\<lambda>s. s) rejectAuthorization True)
              (''SIP/2.0 200 OK'' @ CRLF @ ''Content-Length: 0'' @ CRLF @ ''l: 0'' @ CRLF @ CRLF))))
     = Some (MalformedMessageError MultipleContentLength
          (Response ''SIP/2.0'' 200 ''OK'' [ContentLength 0, ContentLength 0] []))
   \<and> outputs (parserOf (parseMessage (\<lambda>s. s) (\<lambda>s. s) domainUri rejectAuthorization
           (Write (NewParser (\<lambda>s. s) rejectAuthorization True)
              (''SIP/2.0 200 OK'' @ CRLF @ ''Content-Length: 0'' @ CRLF @ ''l: 0'' @ CRLF @ CRLF))))
     = []"
proof -
  let ?p = "Write (NewParser (\<lambda>s. s) rejectAuthorization True)
              (''SIP/2.0 200 OK'' @ CRLF @ ''Content-Length: 0'' @ CRLF @ ''l: 0'' @ CRLF @ CRLF)"
  let ?inp1 = "\<lparr>pending = ''Content-Length: 0'' @ CRLF @ ''l: 0'' @ CRLF @ CRLF, closed = False\<rparr>"
  have mode: "streamed ?p" by (simp add: Write_def NewParser_def)
  have line: "NextLine (input ?p) = (Some ''SIP/2.0 200 OK'', ?inp1)" by code_simp
  have start: "startLineMessage (\<lambda>s. s) (\<lambda>s. s) domainUri ''SIP/2.0 200 OK'' = Inr (Response ''SIP/2.0'' 200 ''OK'' [] [])" by code_simp
  have block: "readHeaders (\<lambda>s. s) rejectAuthorization (headerParsers ?p) ?inp1 [] []
                 = Inr ([ContentLength 0, ContentLength 0], \<lparr>pending = [], closed = False\<rparr>)"
    by code_simp
  have msg: "(Response ''SIP/2.0'' 200 ''OK'' [ContentLength 0, ContentLength 0] []) = fold (\<lambda>h m. AddHeader m h) [ContentLength 0, ContentLength 0] (Response ''SIP/2.0'' 200 ''OK'' [] [])"
    by simp
  have count: "length (GetHeaders (\<lambda>s. s) (Response ''SIP/2.0'' 200 ''OK'' [ContentLength 0, ContentLength 0] []) ''Content-Length'') \<noteq> 1" by code_simp
  have kind: "MultipleContentLength
                = (if length (GetHeaders (\<lambda>s. s) (Response ''SIP/2.0'' 200 ''OK'' [ContentLength 0, ContentLength 0] []) ''Content-Length'') = 0
                   then MissingContentLength else MultipleContentLength)" by code_simp
  have none: "errs ?p = []" "outputs ?p = []" by (simp_all add: Write_def NewParser_def)
  from C3_content_length_missing_or_repeated [OF mode line start block msg count kind] none
  show ?thesis by simp
qed

subsection \<open>C4: the wild-card URI is confined\<close>



subsection \<open>C5: the CSeq header\<close>

text \<open>
  Claim C5, as stated: \<open>parseCSeq\<close> succeeds exactly when the header value splits at
  white space into two tokens of which the first parses as a base-10 unsigned 32-bit
  number, that number is at most \<open>2^31 - 1\<close>, and the second, the method token, has no
  semicolon; it then returns one \<open>CSeq\<close> header with that number and that method.
  Counterexample: in the value made of \<open>1\<close>, a space, a carriage return and \<open>INVITE\<close>,
  the tokens are \<open>1\<close> and the carriage return with \<open>INVITE\<close>, and the parse succeeds, but
  the header holds the method \<open>INVITE\<close>, not the token: the parser stores
  \<open>strings.TrimSpace\<close> of the token, which removes the carriage return; \<open>ParseHeader\<close> on
  the line with that value gives that header.  And the value \<open>" 1 INVITE"\<close>, whose
  tokens are \<open>1\<close> and \<open>INVITE\<close>, is rejected: \<open>SplitByWhitespace\<close> gives a text that
  begins with a space an empty first token.
\<close>

theorem C5_counterexample:
  "tokens (validRunes (''1 '' @ [CHR 0x0D] @ ''INVITE'')) = [''1'', CHR 0x0D # ''INVITE'']
   \<and> CHR '';'' \<notin> set (CHR 0x0D # ''INVITE'')
   \<and> parseCSeq ''cseq'' (''1 '' @ [CHR 0x0D] @ ''INVITE'') = Inr [CSeq 1 ''INVITE'']
   \<and> parseCSeq ''cseq'' (''1 '' @ [CHR 0x0D] @ ''INVITE'')
       \<noteq> Inr [CSeq 1 (CHR 0x0D # ''INVITE'')]
   \<and> ParseHeader (\<lambda>s. s) rejectAuthorization (''CSeq: 1 '' @ [CHR 0x0D] @ ''INVITE'')
         (Some (newHeaderParsers (\<lambda>s. s) rejectAuthorization))
       = Inr [CSeq 1 ''INVITE'']
   \<and> tokens (validRunes '' 1 INVITE'') = [''1'', ''INVITE'']
   \<and> parseCSeq ''cseq'' '' 1 INVITE'' = Inl (Err CSeqParts)"
proof -
  have first: "tokens (validRunes (''1 '' @ [CHR 0x0D] @ ''INVITE'')) = [''1'', CHR 0x0D # ''INVITE'']"
    by code_simp
  have semi: "CHR '';'' \<notin> set (CHR 0x0D # ''INVITE'')"
    by code_simp
  have run: "parseCSeq ''cseq'' (''1 '' @ [CHR 0x0D] @ ''INVITE'') = Inr [CSeq 1 ''INVITE'']"
    by code_simp
  have differ: "parseCSeq ''cseq'' (''1 '' @ [CHR 0x0D] @ ''INVITE'')
       \<noteq> Inr [CSeq 1 (CHR 0x0D # ''INVITE'')]"
    by code_simp
  have header: "ParseHeader (\<lambda>s. s) rejectAuthorization (''CSeq: 1 '' @ [CHR 0x0D] @ ''INVITE'')
         (Some (newHeaderParsers (\<lambda>s. s) rejectAuthorization))
       = Inr [CSeq 1 ''INVITE'']"
    by code_simp
  have second: "tokens (validRunes '' 1 INVITE'') = [''1'', ''INVITE'']"
    by code_simp
  have rejected: "parseCSeq ''cseq'' '' 1 INVITE'' = Inl (Err CSeqParts)"
    by code_simp
  from first semi run differ header second rejected show ?thesis by (intro conjI)
qed

text \<open>
  Claim C5, amended: \<open>parseCSeq\<close> succeeds exactly when the header value does not begin
  with a space or a tab, its tokens (the maximal runs of bytes other than space and tab,
  a byte that starts no valid UTF-8 encoding being read as U+FFFD) are two, the first
  parses as a base-10 unsigned 32-bit number, that number is at most \<open>2^31 - 1\<close>, and
  the second, the method token, has no semicolon; it then returns one \<open>CSeq\<close> header with
  that number and with the method token less the white space at its ends
  (\<open>strings.TrimSpace\<close>).  The first token parses when it is a non-empty string of
  decimal digits whose value fits 32 bits.  The same is stated with the list that
  \<open>SplitByWhitespace\<close> returns, which is the list of the tokens, after an empty token when
  the text begins with a space or a tab.
\<close>

theorem C5_parseCSeq_accepts:
  "((parseCSeq headerName headerText = Inr hs) =
      (\<exists>seq method.
         \<not> (headerText \<noteq> [] \<and> blank (hd headerText))
         \<and> tokens (validRunes headerText) = [seq, method]
         \<and> seq \<noteq> [] \<and> list_all isDigit seq \<and> digitsValue 0 seq \<le> 2 ^ 32 - 1
         \<and> digitsValue 0 seq \<le> 2 ^ 31 - 1
         \<and> CHR '';'' \<notin> set method
         \<and> hs = [CSeq (digitsValue 0 seq) (strings_TrimSpace method)]))
   \<and> ((parseCSeq headerName headerText = Inr hs) =
      (\<exists>seq method.
         SplitByWhitespace headerText = [seq, method]
         \<and> seq \<noteq> [] \<and> list_all isDigit seq \<and> digitsValue 0 seq \<le> 2 ^ 32 - 1
         \<and> digitsValue 0 seq \<le> 2 ^ 31 - 1
         \<and> CHR '';'' \<notin> set method
         \<and> hs = [CSeq (digitsValue 0 seq) (strings_TrimSpace method)]))
   \<and> SplitByWhitespace headerText
       = (if headerText \<noteq> [] \<and> blank (hd headerText) then [[]] else [])
           @ tokens (validRunes headerText)"
proof -
  have split: "SplitByWhitespace headerText
       = (if headerText \<noteq> [] \<and> blank (hd headerText) then [[]] else [])
           @ tokens (validRunes headerText)"
    by (rule SplitByWhitespace_tokens)
  have two: "(SplitByWhitespace headerText = [seq, m])
      = (\<not> (headerText \<noteq> [] \<and> blank (hd headerText))
         \<and> tokens (validRunes headerText) = [seq, m])"
    if "seq \<noteq> []" for seq m
    unfolding split using that by auto
  have code: "(parseCSeq headerName headerText = Inr hs) =
      (\<exists>seq method.
         SplitByWhitespace headerText = [seq, method]
         \<and> seq \<noteq> [] \<and> list_all isDigit seq \<and> digitsValue 0 seq \<le> 2 ^ 32 - 1
         \<and> digitsValue 0 seq \<le> 2 ^ 31 - 1
         \<and> CHR '';'' \<notin> set method
         \<and> hs = [CSeq (digitsValue 0 seq) (strings_TrimSpace method)])"
    by (rule parseCSeq_iff)
  have "(\<exists>seq method.
         SplitByWhitespace headerText = [seq, method]
         \<and> seq \<noteq> [] \<and> list_all isDigit seq \<and> digitsValue 0 seq \<le> 2 ^ 32 - 1
         \<and> digitsValue 0 seq \<le> 2 ^ 31 - 1
         \<and> CHR '';'' \<notin> set method
         \<and> hs = [CSeq (digitsValue 0 seq) (strings_TrimSpace method)])
      = (\<exists>seq method.
         \<not> (headerText \<noteq> [] \<and> blank (hd headerText))
         \<and> tokens (validRunes headerText) = [seq, method]
         \<and> seq \<noteq> [] \<and> list_all isDigit seq \<and> digitsValue 0 seq \<le> 2 ^ 32 - 1
         \<and> digitsValue 0 seq \<le> 2 ^ 31 - 1
         \<and> CHR '';'' \<notin> set method
         \<and> hs = [CSeq (digitsValue 0 seq) (strings_TrimSpace method)])"
    using two by blast
  with code have byTokens: "(parseCSeq headerName headerText = Inr hs) =
      (\<exists>seq method.
         \<not> (headerText \<noteq> [] \<and> blank (hd headerText))
         \<and> tokens (validRunes headerText) = [seq, method]
         \<and> seq \<noteq> [] \<and> list_all isDigit seq \<and> digitsValue 0 seq \<le> 2 ^ 32 - 1
         \<and> digitsValue 0 seq \<le> 2 ^ 31 - 1
         \<and> CHR '';'' \<notin> set method
         \<and> hs = [CSeq (digitsValue 0 seq) (strings_TrimSpace method)])"
    by (rule trans)
  from byTokens code split show ?thesis by (intro conjI)
qed

text \<open>Witness of C5: the CSeq value of the REGISTER of the spec.\<close>

theorem C5_witness:
  "parseCSeq ''cseq'' ''314159 REGISTER'' = Inr [CSeq 314159 ''REGISTER'']"
proof -
  have begins: "\<not> (''314159 REGISTER'' \<noteq> [] \<and> blank (hd ''314159 REGISTER''))"
    by code_simp
  have parts: "tokens (validRunes ''314159 REGISTER'') = [''314159'', ''REGISTER'']"
    by code_simp
  have num: "''314159'' \<noteq> []" "list_all isDigit ''314159''" "digitsValue 0 ''314159'' = 314159"
    by code_simp+
  have meth: "CHR '';'' \<notin> set ''REGISTER''" "strings_TrimSpace ''REGISTER'' = ''REGISTER''"
    by code_simp+
  have "\<exists>seq method.
         \<not> (''314159 REGISTER'' \<noteq> [] \<and> blank (hd ''314159 REGISTER''))
         \<and> tokens (validRunes ''314159 REGISTER'') = [seq, method]
         \<and> seq \<noteq> [] \<and> list_all isDigit seq \<and> digitsValue 0 seq \<le> 2 ^ 32 - 1
         \<and> digitsValue 0 seq \<le> 2 ^ 31 - 1
         \<and> CHR '';'' \<notin> set method
         \<and> [CSeq 314159 ''REGISTER''] = [CSeq (digitsValue 0 seq) (strings_TrimSpace method)]"
    using begins parts num meth by simp
  moreover from C5_parseCSeq_accepts [of "''cseq''" "''314159 REGISTER''" "[CSeq 314159 ''REGISTER'']"]
  have "(parseCSeq ''cseq'' ''314159 REGISTER'' = Inr [CSeq 314159 ''REGISTER'']) =
      (\<exists>seq method.
         \<not> (''314159 REGISTER'' \<noteq> [] \<and> blank (hd ''314159 REGISTER''))
         \<and> tokens (validRunes ''314159 REGISTER'') = [seq, method]
         \<and> seq \<noteq> [] \<and> list_all isDigit seq \<and> digitsValue 0 seq \<le> 2 ^ 32 - 1
         \<and> digitsValue 0 seq \<le> 2 ^ 31 - 1
         \<and> CHR '';'' \<notin> set method
         \<and> [CSeq 314159 ''REGISTER''] = [CSeq (digitsValue 0 seq) (strings_TrimSpace method)])"
    by (rule conjunct1)
  ultimately show ?thesis by (rule iffD2 [rotated])
qed

subsection \<open>C6: the end of the host section\<close>

text \<open>
  Claim C6, as stated: after the user-info part, the host[:port] section parsed by
  \<open>ParseSipUri\<close> extends to the first semicolon or question mark, whichever comes
  first.  Counterexample: in \<open>sip:h?a=b;c\<close> the question mark (index 1 of \<open>h?a=b;c\<close>)
  comes first, and the host section extends to the semicolon (index 5): the host is
  \<open>h?a=b\<close> and \<open>c\<close> is a URI parameter.
\<close>

theorem C6_counterexample:
  "ParseSipUri (\<lambda>s. s) ''sip:h?a=b;c''
     = Inr \<lparr>FIsEncrypted = False, FUser = None, FPassword = None, FHost = ''h?a=b'',
            FPort = None, FUriParams = [(''c'', None)], FHeaders = []\<rparr>
   \<and> endOfUriPart ''h?a=b;c'' = 5
   \<and> firstSemicolonOrQuestion ''h?a=b;c'' = 1"
  by code_simp

text \<open>
  Claim C6, amended: for every SIP or SIPS URI string (one that passes the check of the
  protocol name), the host[:port] section of the text after the user-info part extends
  to the first semicolon when that text has a semicolon, else to the first question
  mark, else to the end of the string; the URI parameters and the URI headers are
  parsed from that position on.
\<close>

theorem C6_host_section_ends_at_semicolon_if_any:
  assumes scheme: "sipUriScheme lowerU uriStr = Inr (secure, afterScheme)"
      and userInfo: "sipUriUserInfo afterScheme = (user, password, afterUser)"
  shows "ParseSipUri lowerU uriStr =
           (case ParseHostPort (take (hostSectionEnd afterUser) afterUser) of
              Inl e \<Rightarrow> Inl (Err e)
            | Inr (host, port) \<Rightarrow>
                if drop (hostSectionEnd afterUser) afterUser = [] then
                  Inr \<lparr>FIsEncrypted = secure, FUser = user, FPassword = password,
                       FHost = host, FPort = port, FUriParams = [], FHeaders = []\<rparr>
                else (case sipUriParams (drop (hostSectionEnd afterUser) afterUser) of
                        Inl e \<Rightarrow> Inl (Err e)
                      | Inr (uriParams, headers) \<Rightarrow>
                          Inr \<lparr>FIsEncrypted = secure, FUser = user, FPassword = password,
                               FHost = host, FPort = port,
                               FUriParams = uriParams, FHeaders = headers\<rparr>))"
  using scheme userInfo
  by (simp add: ParseSipUri_def endOfUriPart_eq NewParams_def Let_def
           split: sum.splits prod.splits)

text \<open>Witness of C6: a SIPS URI with user, password, port, a parameter and two
  headers.\<close>

theorem C6_witness:
  "hostSectionEnd ''example.com:5060;transport=tcp?x=y&z=w'' = 16
   \<and> ParseSipUri (\<lambda>s. s) ''sips:alice:pw@example.com:5060;transport=tcp?x=y&z=w''
     = Inr \<lparr>FIsEncrypted = True, FUser = Some ''alice'', FPassword = Some ''pw'',
            FHost = ''example.com'', FPort = Some 5060,
            FUriParams = [(''transport'', Some ''tcp'')],
            FHeaders = [(''x'', Some ''y''), (''z'', Some ''w'')]\<rparr>"
proof -
  have scheme: "sipUriScheme (\<lambda>s. s) ''sips:alice:pw@example.com:5060;transport=tcp?x=y&z=w''
                  = Inr (True, ''alice:pw@example.com:5060;transport=tcp?x=y&z=w'')"
    by code_simp
  have userInfo: "sipUriUserInfo ''alice:pw@example.com:5060;transport=tcp?x=y&z=w''
                    = (Some ''alice'', Some ''pw'', ''example.com:5060;transport=tcp?x=y&z=w'')"
    by code_simp
  have k: "hostSectionEnd ''example.com:5060;transport=tcp?x=y&z=w'' = 16" by code_simp
  have rhs: "(case ParseHostPort (take 16 ''example.com:5060;transport=tcp?x=y&z=w'') of
              Inl e \<Rightarrow> Inl (Err e)
            | Inr (host, port) \<Rightarrow>
                if drop 16 ''example.com:5060;transport=tcp?x=y&z=w'' = [] then
                  Inr \<lparr>FIsEncrypted = True, FUser = Some ''alice'', FPassword = Some ''pw'',
                       FHost = host, FPort = port, FUriParams = [], FHeaders = []\<rparr>
                else (case sipUriParams (drop 16 ''example.com:5060;transport=tcp?x=y&z=w'') of
                        Inl e \<Rightarrow> Inl (Err e)
                      | Inr (uriParams, headers) \<Rightarrow>
                          Inr \<lparr>FIsEncrypted = True, FUser = Some ''alice'', FPassword = Some ''pw'',
                               FHost = host, FPort = port,
                               FUriParams = uriParams, FHeaders = headers\<rparr>))
             = Inr \<lparr>FIsEncrypted = True, FUser = Some ''alice'', FPassword = Some ''pw'',
            FHost = ''example.com'', FPort = Some 5060,
            FUriParams = [(''transport'', Some ''tcp'')],
            FHeaders = [(''x'', Some ''y''), (''z'', Some ''w'')]\<rparr>"
    by code_simp
  from C6_host_section_ends_at_semicolon_if_any [OF scheme userInfo] k rhs
  show ?thesis by (simp only: simp_thms)
qed

subsection \<open>C7: an invalid start line in datagram mode\<close>

text \<open>
  Claim C7: in datagram mode, when the start line fails classification or sub-parsing,
  the loop sends one \<open>InvalidStartLineError\<close>, sets the terminal error, pops one pair
  from the body-length channel, skips \<open>total_frame_length - len(start_line) - 2\<close> bytes
  and goes on, so that the next datagram parses normally.  The last part: when the
  buffer holds the frame of the popped pair followed by the later frames, the skip
  leaves the buffer at the first byte of the later frames.
\<close>

theorem C7_invalid_start_line_skips_the_frame:
  assumes mode: "\<not> streamed p"
      and line: "NextLine (input p) = (Some startLine, inp1)"
      and bad: "startLineMessage lowerU upperU requestUri startLine = Inl (Err termErr)"
      and pair: "bodyLengths p = (bl, frameLength) # q"
  shows "parseMessage lowerU upperU requestUri parseAuthorization p
           = Continue (p\<lparr>input := snd (NextChunk inp1 (frameLength - int (length startLine) - 2)),
                         bodyLengths := q,
                         terminalErr := Some (InvalidStartLineError termErr),
                         errs := errs p @ [InvalidStartLineError termErr]\<rparr>)
         \<and> (\<forall>frame rest body.
               \<not> closed (input p) \<and> pending (input p) = frame @ rest
               \<and> cutLine frame = Some (startLine, body) \<and> frameLength = int (length frame)
               \<longrightarrow> snd (NextChunk inp1 (frameLength - int (length startLine) - 2))
                     = (input p)\<lparr>pending := rest\<rparr>)"
proof (intro conjI allI impI)
  have "invalidStartLine (p\<lparr>input := inp1\<rparr>) startLine termErr
          = Continue (p\<lparr>input := snd (NextChunk inp1 (frameLength - int (length startLine) - 2)),
                         bodyLengths := q,
                         terminalErr := Some (InvalidStartLineError termErr),
                         errs := errs p @ [InvalidStartLineError termErr]\<rparr>)"
    using mode pair by (simp add: invalidStartLine_def Let_def)
  with line bad show "parseMessage lowerU upperU requestUri parseAuthorization p
           = Continue (p\<lparr>input := snd (NextChunk inp1 (frameLength - int (length startLine) - 2)),
                         bodyLengths := q,
                         terminalErr := Some (InvalidStartLineError termErr),
                         errs := errs p @ [InvalidStartLineError termErr]\<rparr>)"
    by (simp add: parseMessage_def)
next
  fix frame rest body
  assume sync: "\<not> closed (input p) \<and> pending (input p) = frame @ rest
               \<and> cutLine frame = Some (startLine, body) \<and> frameLength = int (length frame)"
  then have cut: "cutLine frame = Some (startLine, body)" by simp
  from cutLine_append [OF cut, of rest] sync
  have "NextLine (input p) = (Some startLine, (input p)\<lparr>pending := body @ rest\<rparr>)"
    by (simp add: NextLine_def)
  with line have inp1: "inp1 = (input p)\<lparr>pending := body @ rest\<rparr>" by simp
  from cutLine_length [OF cut] sync
  have skip: "frameLength - int (length startLine) - 2 = int (length body)" by simp
  from sync show "snd (NextChunk inp1 (frameLength - int (length startLine) - 2))
                     = (input p)\<lparr>pending := rest\<rparr>"
    unfolding inp1 skip by (simp add: NextChunk_def)
qed

text \<open>Witness of C7: the datagram \<open>HELLO WORLD\<close> with a header, then a valid
  response.  The first turn leaves the parser at the second datagram; the loop sends
  one error and then the response.\<close>

theorem C7_witness:
  "parserOf (parseMessage (\<lambda>s. s) (\<lambda>s. s) domainUri rejectAuthorization
      (Write (Write (NewParser (\<lambda>s. s) rejectAuthorization False)
                (''HELLO WORLD'' @ CRLF @ ''Content-Length: 0'' @ CRLF @ CRLF))
         (''SIP/2.0 200 OK'' @ CRLF @ ''Content-Length: 0'' @ CRLF @ CRLF)))
     = (NewParser (\<lambda>s. s) rejectAuthorization False)
         \<lparr>input := \<lparr>pending = ''SIP/2.0 200 OK'' @ CRLF @ ''Content-Length: 0'' @ CRLF @ CRLF,
                     closed = False\<rparr>,
          bodyLengths := [(0, 37)],
          terminalErr := Some (InvalidStartLineError NotSipMessage),
          errs := [InvalidStartLineError NotSipMessage]\<rparr>
   \<and> errs (snd (parse (\<lambda>s. s) (\<lambda>s. s) domainUri rejectAuthorization
      (Write (Write (NewParser (\<lambda>s. s) rejectAuthorization False)
                (''HELLO WORLD'' @ CRLF @ ''Content-Length: 0'' @ CRLF @ CRLF))
         (''SIP/2.0 200 OK'' @ CRLF @ ''Content-Length: 0'' @ CRLF @ CRLF))))
     = [InvalidStartLineError NotSipMessage]
   \<and> outputs (snd (parse (\<lambda>s. s) (\<lambda>s. s) domainUri rejectAuthorization
      (Write (Write (NewParser (\<lambda>s. s) rejectAuthorization False)
                (''HELLO WORLD'' @ CRLF @ ''Content-Length: 0'' @ CRLF @ CRLF))
         (''SIP/2.0 200 OK'' @ CRLF @ ''Content-Length: 0'' @ CRLF @ CRLF))))
     = [Response ''SIP/2.0'' 200 ''OK'' [ContentLength 0] []]"
proof -
  let ?bad = "''HELLO WORLD'' @ CRLF @ ''Content-Length: 0'' @ CRLF @ CRLF"
  let ?good = "''SIP/2.0 200 OK'' @ CRLF @ ''Content-Length: 0'' @ CRLF @ CRLF"
  let ?p = "Write (Write (NewParser (\<lambda>s. s) rejectAuthorization False) ?bad) ?good"
  let ?inp1 = "\<lparr>pending = ''Content-Length: 0'' @ CRLF @ CRLF @ ?good, closed = False\<rparr>"
  have p: "?p = (NewParser (\<lambda>s. s) rejectAuthorization False)
                  \<lparr>bodyLengths := [(0, 34), (0, 37)],
                   input := \<lparr>pending = ?bad @ ?good, closed = False\<rparr>\<rparr>"
    by (simp add: Write_def NewParser_def getBodyLength_def CRLF_def)
  have mode: "\<not> streamed ?p" by code_simp
  have line: "NextLine (input ?p) = (Some ''HELLO WORLD'', ?inp1)" by code_simp
  have bad: "startLineMessage (\<lambda>s. s) (\<lambda>s. s) domainUri ''HELLO WORLD'' = Inl (Err NotSipMessage)"
    by code_simp
  have pair: "bodyLengths ?p = (0, 34) # [(0, 37)]" by code_simp
  have skip: "snd (NextChunk ?inp1 (34 - int (length ''HELLO WORLD'') - 2))
                = \<lparr>pending = ?good, closed = False\<rparr>"
    by code_simp
  have run: "errs (snd (parse (\<lambda>s. s) (\<lambda>s. s) domainUri rejectAuthorization ?p))
               = [InvalidStartLineError NotSipMessage]
             \<and> outputs (snd (parse (\<lambda>s. s) (\<lambda>s. s) domainUri rejectAuthorization ?p))
               = [Response ''SIP/2.0'' 200 ''OK'' [ContentLength 0] []]"
    by code_simp
  from C7_invalid_start_line_skips_the_frame [OF mode line bad pair, of rejectAuthorization]
  have "parseMessage (\<lambda>s. s) (\<lambda>s. s) domainUri rejectAuthorization ?p
          = Continue (?p\<lparr>input := snd (NextChunk ?inp1 (34 - int (length ''HELLO WORLD'') - 2)),
                         bodyLengths := [(0, 37)],
                         terminalErr := Some (InvalidStartLineError NotSipMessage),
                         errs := errs ?p @ [InvalidStartLineError NotSipMessage]\<rparr>)"
    by (rule conjunct1)
  then have "parserOf (parseMessage (\<lambda>s. s) (\<lambda>s. s) domainUri rejectAuthorization ?p)
          = (NewParser (\<lambda>s. s) rejectAuthorization False)
         \<lparr>input := \<lparr>pending = ?good, closed = False\<rparr>,
          bodyLengths := [(0, 37)],
          terminalErr := Some (InvalidStartLineError NotSipMessage),
          errs := [InvalidStartLineError NotSipMessage]\<rparr>"
    unfolding skip unfolding p by (simp add: NewParser_def)
  with run show ?thesis by blast
qed

subsection \<open>C8: the byte after a closing quote\<close>

text \<open>
  Claim C8: with \<open>quoteValues\<close>, the closing quote of a quoted value is accepted exactly
  when the \<open>sep\<close> byte, the \<open>end\<close> byte or the end of the text follows it.  With
  \<open>sep = ';'\<close> and \<open>end = '?'\<close>, the text \<open>;a="b"?h=1\<close> has its closing quote followed
  by the \<open>end\<close> byte, and the parse fails at the quote (index 5): the test before
  \<open>inQuotes = !inQuotes\<close> lets only \<open>sep\<close> and the end of the text through.
\<close>

theorem C8_closing_quote_before_end_byte_fails:
  "ParseParams ('';a='' @ [CHR 0x22] @ ''b'' @ [CHR 0x22] @ ''?h=1'')
     (CHR '';'') (CHR '';'') (CHR ''?'') True True
   = ([], 5, Some CharAfterQuote)"
  by code_simp

subsection \<open>C9: the status code of a response\<close>

text \<open>
  Claim C9, as stated: every response the loop produces from a response-like start line
  has a status code in [100, 699].  Counterexample: the datagram
  \<open>SIP/2.0 99 Low\<close>, CRLF, CRLF is sent down the output as a response with the status
  code 99.
\<close>

theorem C9_counterexample:
  "\<not> list_all (statusInRange 100 699)
       (outputs (snd (parse (\<lambda>s. s) (\<lambda>s. s) domainUri rejectAuthorization
          (Write (NewParser (\<lambda>s. s) rejectAuthorization False)
             (''SIP/2.0 99 Low'' @ CRLF @ CRLF)))))"
  by code_simp

text \<open>
  Claim C9, amended: every response the loop produces has a status code in [0, 65535]:
  the status line is accepted when its second token parses as an unsigned 16-bit number,
  and no other test of the code is made.  Stated for the loop from any parser whose
  output so far is in that range.
\<close>

theorem C9_status_code_is_16_bit:
  assumes "list_all (statusInRange 0 65535) (outputs p)"
  shows "list_all (statusInRange 0 65535) (outputs (snd (parse lowerU upperU requestUri parseAuthorization p)))"
proof (rule parse_invariant [where H = "\<lambda>h. True"])
  show "\<forall>startLine msg. startLineMessage lowerU upperU requestUri startLine = Inr msg
          \<longrightarrow> statusInRange 0 65535 msg"
    by (blast intro: startLineMessage_status)
  show "\<forall>msg h. statusInRange 0 65535 msg \<longrightarrow> True \<longrightarrow> statusInRange 0 65535 (AddHeader msg h)"
    by (simp add: statusInRange_AddHeader)
  show "\<forall>msg b. statusInRange 0 65535 msg \<longrightarrow> statusInRange 0 65535 (SetBody msg b)"
    by (simp add: statusInRange_SetBody)
  show "\<forall>text hs. ParseHeader lowerU parseAuthorization text (Some (headerParsers p)) = Inr hs
          \<longrightarrow> list_all (\<lambda>h. True) hs"
    by (simp add: list_all_iff)
  show "list_all (statusInRange 0 65535) (outputs p)" by (rule assms)
qed

text \<open>Witness of C9: a new parser in datagram mode and a status line with the code
  65535, which is sent down the output.\<close>

theorem C9_witness:
  "list_all (statusInRange 0 65535)
     (outputs (snd (parse (\<lambda>s. s) (\<lambda>s. s) domainUri rejectAuthorization
        (Write (NewParser (\<lambda>s. s) rejectAuthorization False)
           (''SIP/2.0 65535 Max'' @ CRLF @ CRLF)))))
   \<and> outputs (snd (parse (\<lambda>s. s) (\<lambda>s. s) domainUri rejectAuthorization
        (Write (NewParser (\<lambda>s. s) rejectAuthorization False)
           (''SIP/2.0 65535 Max'' @ CRLF @ CRLF))))
     = [Response ''SIP/2.0'' 65535 ''Max'' [] []]"
proof -
  have start: "list_all (statusInRange 0 65535)
     (outputs (Write (NewParser (\<lambda>s. s) rejectAuthorization False)
        (''SIP/2.0 65535 Max'' @ CRLF @ CRLF)))"
    by code_simp
  have run: "outputs (snd (parse (\<lambda>s. s) (\<lambda>s. s) domainUri rejectAuthorization
        (Write (NewParser (\<lambda>s. s) rejectAuthorization False)
           (''SIP/2.0 65535 Max'' @ CRLF @ CRLF))))
     = [Response ''SIP/2.0'' 65535 ''Max'' [] []]"
    by code_simp
  from C9_status_code_is_16_bit [OF start] run show ?thesis by blast
qed

subsection \<open>C10: the registry of a nil parser\<close>

text \<open>
  Claim C10: without a parser, \<open>ParseHeader\<close> looks the lower-cased field name up in the
  default map, whose keys for Call-ID, Authorization and Proxy-Authorization are in mixed
  case, so for these three names it gives a \<open>GenericHeader\<close> (with the field name as
  written and the trimmed value); with the registry of \<open>NewParser\<close>, which lower-cases
  every key, the same header text goes to the typed parser (\<open>parseCallId\<close>, or the
  parser of the authorization headers), called with the lower-cased name.
\<close>

theorem C10_nil_parser_misses_mixed_case_keys:
  assumes colon: "strings_Index headerText '':'' = int i"
      and name: "strings_ToLower lowerU (strings_TrimSpace (take i headerText)) = lowerFieldName"
      and three: "lowerFieldName = ''call-id'' \<or> lowerFieldName = ''authorization''
                  \<or> lowerFieldName = ''proxy-authorization''"
  shows "ParseHeader lowerU parseAuthorization headerText None
           = Inr [GenericHeader (strings_TrimSpace (take i headerText))
                    (strings_TrimSpace (drop (i + 1) headerText))]
         \<and> ParseHeader lowerU parseAuthorization headerText
             (Some (newHeaderParsers lowerU parseAuthorization))
           = (if lowerFieldName = ''call-id'' then parseCallId else parseAuthorization)
               lowerFieldName (strings_TrimSpace (drop (i + 1) headerText))"
proof -
  have idx: "strings_Index headerText '':'' \<noteq> -1" "nat (strings_Index headerText '':'') = i"
    using colon by simp_all
  from three have none: "defaultHeaderParsers lowerU parseAuthorization lowerFieldName = None"
    by (auto simp: defaultHeaderParsers_mixed_case)
  from three have some:
    "newHeaderParsers lowerU parseAuthorization lowerFieldName
       = Some (if lowerFieldName = ''call-id'' then parseCallId else parseAuthorization)"
    using newHeaderParsers_typed [of lowerU parseAuthorization] by (elim disjE) simp_all
  show ?thesis
    using idx name none some by (simp add: ParseHeader_def Let_def)
qed

text \<open>Witness of C10: a Call-ID header.\<close>

theorem C10_witness:
  "ParseHeader (\<lambda>s. s) rejectAuthorization ''Call-ID: a84b4c76e66710@client.example.com'' None
     = Inr [GenericHeader ''Call-ID'' ''a84b4c76e66710@client.example.com'']
   \<and> ParseHeader (\<lambda>s. s) rejectAuthorization ''Call-ID: a84b4c76e66710@client.example.com''
       (Some (newHeaderParsers (\<lambda>s. s) rejectAuthorization))
     = Inr [CallID ''a84b4c76e66710@client.example.com'']"
proof -
  let ?t = "''Call-ID: a84b4c76e66710@client.example.com''"
  have h1: "strings_Index ?t '':'' = int 7" by code_simp
  have h2: "strings_ToLower (\<lambda>s. s) (strings_TrimSpace (take 7 ?t)) = ''call-id''" by code_simp
  have e1: "strings_TrimSpace (take 7 ?t) = ''Call-ID''" by code_simp
  have e2: "strings_TrimSpace (drop (7 + 1) ?t) = ''a84b4c76e66710@client.example.com''"
    by code_simp
  have e3: "parseCallId ''call-id'' ''a84b4c76e66710@client.example.com''
              = Inr [CallID ''a84b4c76e66710@client.example.com'']" by code_simp
  from C10_nil_parser_misses_mixed_case_keys [OF h1 h2, of rejectAuthorization]
  show ?thesis by (simp only: e1 e2 e3 simp_thms if_True)
qed

end
